theory Spec2Isabelle
  imports Complex_Main
begin

section \<open>Python strings\<close>

text \<open>
  The scanner of \<^verbatim>\<open>demos/FileScannerTool.py\<close> works on file names, extension lists and
  reason strings. A Python \<^verbatim>\<open>str\<close> is modelled as a \<^typ>\<open>string\<close> of ASCII characters; the
  string methods the scanner calls are written out below with their Python names.
\<close>

definition isspace :: "char \<Rightarrow> bool" where
  "isspace c = (c \<in> set [CHR 0x09, CHR 0x0A, CHR 0x0B, CHR 0x0C, CHR 0x0D,
                          CHR 0x1C, CHR 0x1D, CHR 0x1E, CHR 0x1F, CHR 0x20])"

definition strip :: "string \<Rightarrow> string" where
  "strip s = rev (dropWhile isspace (rev (dropWhile isspace s)))"

definition strip_chars :: "string \<Rightarrow> string \<Rightarrow> string" where
  "strip_chars cs s =
     rev (dropWhile (\<lambda>c. c \<in> set cs) (rev (dropWhile (\<lambda>c. c \<in> set cs) s)))"

definition lower_char :: "char \<Rightarrow> char" where
  "lower_char c =
     (case map_of (zip ''ABCDEFGHIJKLMNOPQRSTUVWXYZ'' ''abcdefghijklmnopqrstuvwxyz'') c of
        Some d \<Rightarrow> d
      | None \<Rightarrow> c)"

definition lower :: "string \<Rightarrow> string" where
  "lower s = map lower_char s"

fun split_on :: "char \<Rightarrow> string \<Rightarrow> string list" where
  "split_on sep [] = [[]]"
| "split_on sep (c # cs) =
     (if c = sep then [] # split_on sep cs
      else (case split_on sep cs of
              t # ts \<Rightarrow> (c # t) # ts
            | [] \<Rightarrow> [[c]]))"

fun startswith :: "string \<Rightarrow> string \<Rightarrow> bool" where
  "startswith s [] = True"
| "startswith [] (p # ps) = False"
| "startswith (c # cs) (p # ps) = (c = p \<and> startswith cs ps)"

text \<open>\<^verbatim>\<open>pat in s\<close> on strings: \<open>pat\<close> occurs in \<open>s\<close> as a contiguous substring.\<close>

fun str_in :: "string \<Rightarrow> string \<Rightarrow> bool" where
  "str_in pat [] = (pat = [])"
| "str_in pat (c # cs) = (startswith (c # cs) pat \<or> str_in pat cs)"

text \<open>\<^verbatim>\<open>s.rfind(c)\<close>: the highest index of \<open>c\<close> in \<open>s\<close>, or \<open>-1\<close>.\<close>

fun rfind :: "string \<Rightarrow> char \<Rightarrow> int" where
  "rfind [] c = - 1"
| "rfind (x # xs) c =
     (let r = rfind xs c in if 0 \<le> r then r + 1 else if x = c then 0 else - 1)"

text \<open>
  \<^verbatim>\<open>PurePath.suffix\<close> of pathlib (CPython up to 3.13), applied to the final path component:
  \<^verbatim>\<open>i = name.rfind('.'); return name[i:] if 0 < i < len(name) - 1 else ''\<close>.
\<close>

definition suffix :: "string \<Rightarrow> string" where
  "suffix nm =
     (let i = rfind nm CHR ''.''
      in if 0 < i \<and> i < int (length nm) - 1 then drop (nat i) nm else [])"

text \<open>\<^verbatim>\<open>str(n)\<close> for an integer, as the f-strings of the reason texts format it.\<close>

definition digit :: "nat \<Rightarrow> char" where
  "digit d = ''0123456789'' ! d"

fun str_nat :: "nat \<Rightarrow> string" where
  "str_nat n = (if n < 10 then [digit n] else str_nat (n div 10) @ [digit (n mod 10)])"

declare str_nat.simps [simp del]

definition str_int :: "int \<Rightarrow> string" where
  "str_int i = (if i < 0 then CHR ''-'' # str_nat (nat (- i)) else str_nat (nat i))"


section \<open>Python numbers\<close>

text \<open>
  Byte sizes are Python integers (\<^typ>\<open>nat\<close>). A Python \<^verbatim>\<open>float\<close> is modelled by the rational
  number it denotes, so float arithmetic is exact here; the special values of
  \<^verbatim>\<open>float\<close> are kept apart. \<^verbatim>\<open>size / (1024 * 1024)\<close> is exact in binary floating point as
  well (a division by a power of two), and \<^verbatim>\<open>round(x, 2)\<close> rounds the exact value of \<open>x\<close>
  to two decimals, ties to even.
\<close>

datatype pyfloat = Finite rat | PosInf | NegInf | NaN

text \<open>\<^verbatim>\<open>x * n\<close> for a float \<open>x\<close> and a positive integer constant \<open>n\<close>.\<close>

fun fmul :: "pyfloat \<Rightarrow> nat \<Rightarrow> pyfloat" where
  "fmul (Finite r) n = Finite (r * of_nat n)"
| "fmul PosInf n = (if n = 0 then NaN else PosInf)"
| "fmul NegInf n = (if n = 0 then NaN else NegInf)"
| "fmul NaN n = NaN"

text \<open>\<^verbatim>\<open>size >= x\<close> for an integer size and a float \<open>x\<close> (Python compares them exactly).\<close>

fun int_ge_float :: "nat \<Rightarrow> pyfloat \<Rightarrow> bool" where
  "int_ge_float n (Finite r) = (r \<le> of_nat n)"
| "int_ge_float n PosInf = False"
| "int_ge_float n NegInf = True"
| "int_ge_float n NaN = False"

definition round_half_even :: "rat \<Rightarrow> int" where
  "round_half_even x =
     (let f = \<lfloor>x\<rfloor>; d = x - of_int f
      in if d < 1 / 2 then f
         else if 1 / 2 < d then f + 1
         else if even f then f else f + 1)"

definition py_round2 :: "rat \<Rightarrow> rat" where
  "py_round2 x = of_int (round_half_even (x * 100)) / 100"

text \<open>The expression \<^verbatim>\<open>round(size / (1024 * 1024), 2)\<close>, which the scanner uses five times.\<close>

definition round_mb :: "nat \<Rightarrow> rat" where
  "round_mb sz = py_round2 (of_nat sz / (1024 * 1024))"

text \<open>\<^verbatim>\<open>int(x)\<close> on a float truncates towards zero.\<close>

definition py_int :: "rat \<Rightarrow> int" where
  "py_int x = (if 0 \<le> x then \<lfloor>x\<rfloor> else \<lceil>x\<rceil>)"


section \<open>The directory walk\<close>

text \<open>
  \<^verbatim>\<open>path.rglob("*")\<close> yields the entries under the scan root in some order; the walk is
  the list of these entries. For each entry the scanner uses the relative path, the file
  name, the outcome of \<^verbatim>\<open>is_file()\<close> and the outcome of \<^verbatim>\<open>stat()\<close>. Either call can raise an
  \<^verbatim>\<open>OSError\<close> (of which \<^verbatim>\<open>PermissionError\<close> is a subclass): \<^verbatim>\<open>Path.is_file()\<close> stats the file,
  answers \<^verbatim>\<open>False\<close> when the file is missing and raises every other error again (access
  denied to the directory that holds the file, an I/O error); \<^verbatim>\<open>stat()\<close> raises or returns
  the size and the modification time. The two outcomes of an entry are independent
  fields: \<^verbatim>\<open>stat()\<close> can fail after \<^verbatim>\<open>is_file()\<close> has answered when the file is removed in
  between. The tree is taken not to change otherwise during one scan: every \<^verbatim>\<open>stat()\<close> of
  an entry has the same outcome (the stale-file loop calls it twice), and the generator
  yields all its entries without raising.
\<close>

datatype os_error = PermissionError | OSError

record stat_result =
  st_size :: nat
  st_mtime :: rat

record entry =
  rel_path :: string
  name :: string
  is_file :: "os_error + bool"
  stat :: "os_error + stat_result"

record finding =
  path :: string
  size_mb :: rat
  reason :: string

text \<open>
  What one of the four scanning methods does: an exception leaves it (\<open>Inl\<close>), or it returns
  the Findings and the byte total (\<open>Inr\<close>). In each of them \<^verbatim>\<open>file_path.is_file()\<close> is called
  before the \<^verbatim>\<open>try\<close> statement, so what it raises leaves the loop and the method; what
  \<^verbatim>\<open>stat()\<close> raises inside the \<^verbatim>\<open>try\<close> is caught and the loop goes on to the next entry.
\<close>

type_synonym scan_result = "os_error + finding list \<times> nat"


section \<open>Large files\<close>

text \<open>
  \<^verbatim>\<open>results.sort(key=..., reverse=True)\<close>: CPython reverses the list, sorts it stably in
  ascending order and reverses it again, which keeps equal keys in their original order.
\<close>

definition sort_reverse :: "('a \<Rightarrow> 'k::linorder) \<Rightarrow> 'a list \<Rightarrow> 'a list" where
  "sort_reverse f xs = rev (sort_key f (rev xs))"

fun scan_large_loop ::
  "pyfloat \<Rightarrow> string list \<Rightarrow> entry list \<Rightarrow> finding list \<Rightarrow> nat \<Rightarrow> scan_result" where
  "scan_large_loop min_bytes extensions [] results total_size = Inr (results, total_size)"
| "scan_large_loop min_bytes extensions (file_path # rest) results total_size =
     (case is_file file_path of
        Inl raised \<Rightarrow> Inl raised
      | Inr regular_file \<Rightarrow>
          if regular_file then
            (case stat file_path of
               Inl err \<Rightarrow> scan_large_loop min_bytes extensions rest results total_size
             | Inr st \<Rightarrow>
                 (let sz = st_size st in
                  if int_ge_float sz min_bytes \<and>
                     (extensions = [] \<or> lower (suffix (name file_path)) \<in> set extensions)
                  then scan_large_loop min_bytes extensions rest
                         (results @ [\<lparr>path = rel_path file_path, size_mb = round_mb sz,
                                      reason = ''Large file''\<rparr>])
                         (total_size + sz)
                  else scan_large_loop min_bytes extensions rest results total_size))
          else scan_large_loop min_bytes extensions rest results total_size)"

definition scan_large_files :: "entry list \<Rightarrow> pyfloat \<Rightarrow> string list \<Rightarrow> scan_result" where
  "scan_large_files walk min_size_mb extensions =
     (let min_bytes = fmul (fmul min_size_mb 1024) 1024 in
      case scan_large_loop min_bytes extensions walk [] 0 of
        Inl raised \<Rightarrow> Inl raised
      | Inr (results, total_size) \<Rightarrow> Inr (sort_reverse size_mb results, total_size))"


section \<open>Temporary files\<close>

definition temp_extensions :: "string list" where
  "temp_extensions = [''.tmp'', ''.temp'', ''.cache'', ''.log'', ''.bak'', ''~'']"

definition temp_patterns :: "string list" where
  "temp_patterns = [''tmp'', ''temp'', ''cache'', ''__pycache__'']"

definition is_temp :: "entry \<Rightarrow> bool" where
  "is_temp file_path =
     (lower (suffix (name file_path)) \<in> set temp_extensions \<or>
      list_ex (\<lambda>pattern. str_in pattern (lower (name file_path))) temp_patterns)"

fun scan_temp_loop :: "entry list \<Rightarrow> finding list \<Rightarrow> nat \<Rightarrow> scan_result" where
  "scan_temp_loop [] results total_size = Inr (results, total_size)"
| "scan_temp_loop (file_path # rest) results total_size =
     (case is_file file_path of
        Inl raised \<Rightarrow> Inl raised
      | Inr regular_file \<Rightarrow>
          if regular_file then
            (if is_temp file_path then
               (case stat file_path of
                  Inl err \<Rightarrow> scan_temp_loop rest results total_size
                | Inr st \<Rightarrow>
                    (let sz = st_size st in
                     scan_temp_loop rest
                       (results @ [\<lparr>path = rel_path file_path, size_mb = round_mb sz,
                                    reason = ''Temporary file''\<rparr>])
                       (total_size + sz)))
             else scan_temp_loop rest results total_size)
          else scan_temp_loop rest results total_size)"

definition scan_temp_files :: "entry list \<Rightarrow> scan_result" where
  "scan_temp_files walk = scan_temp_loop walk [] 0"


section \<open>Old files\<close>

text \<open>
  \<^verbatim>\<open>time.time()\<close> is read once when the scan starts and once more for every file that
  qualifies. The clock is the sequence of these readings: \<open>clock k\<close> is what the \<open>k\<close>-th
  call of one invocation returns, and the loop carries the number of the next call.
\<close>

fun scan_old_loop ::
  "(nat \<Rightarrow> rat) \<Rightarrow> rat \<Rightarrow> entry list \<Rightarrow> nat \<Rightarrow> finding list \<Rightarrow> nat \<Rightarrow> scan_result" where
  "scan_old_loop clock cutoff_time [] k results total_size = Inr (results, total_size)"
| "scan_old_loop clock cutoff_time (file_path # rest) k results total_size =
     (case is_file file_path of
        Inl raised \<Rightarrow> Inl raised
      | Inr regular_file \<Rightarrow>
          if regular_file then
            (case stat file_path of
               Inl err \<Rightarrow> scan_old_loop clock cutoff_time rest k results total_size
             | Inr st \<Rightarrow>
                 (let mtime = st_mtime st in
                  if mtime < cutoff_time then
                    (let sz = st_size st;
                         age_days = py_int ((clock k - mtime) / (24 * 60 * 60))
                     in scan_old_loop clock cutoff_time rest (Suc k)
                          (results @ [\<lparr>path = rel_path file_path, size_mb = round_mb sz,
                                       reason = ''Not modified in '' @ str_int age_days
                                                  @ '' days''\<rparr>])
                          (total_size + sz))
                  else scan_old_loop clock cutoff_time rest k results total_size))
          else scan_old_loop clock cutoff_time rest k results total_size)"

definition scan_old_files :: "(nat \<Rightarrow> rat) \<Rightarrow> entry list \<Rightarrow> int \<Rightarrow> scan_result" where
  "scan_old_files clock walk days =
     (let cutoff_time = clock 0 - of_int (days * 24 * 60 * 60)
      in scan_old_loop clock cutoff_time walk 1 [] 0)"


section \<open>Duplicates\<close>

text \<open>
  \<^verbatim>\<open>size_groups\<close> is a \<^verbatim>\<open>dict\<close> from a byte size to the list of files of that size. A
  Python dict keeps its keys in insertion order and the second loop iterates over
  \<^verbatim>\<open>size_groups.items()\<close>, so the dict is an association list in insertion order.
\<close>

type_synonym size_groups = "(nat \<times> entry list) list"

text \<open>\<^verbatim>\<open>size_groups.setdefault(size, []).append(file_path)\<close>\<close>

fun setdefault_append :: "nat \<Rightarrow> entry \<Rightarrow> size_groups \<Rightarrow> size_groups" where
  "setdefault_append sz file_path [] = [(sz, [file_path])]"
| "setdefault_append sz file_path ((k, files) # groups) =
     (if k = sz then (k, files @ [file_path]) # groups
      else (k, files) # setdefault_append sz file_path groups)"

text \<open>The first loop of \<^verbatim>\<open>_scan_duplicates\<close>; here too \<^verbatim>\<open>is_file()\<close> stands before the \<^verbatim>\<open>try\<close>.\<close>

fun group_loop :: "entry list \<Rightarrow> size_groups \<Rightarrow> os_error + size_groups" where
  "group_loop [] groups = Inr groups"
| "group_loop (file_path # rest) groups =
     (case is_file file_path of
        Inl raised \<Rightarrow> Inl raised
      | Inr regular_file \<Rightarrow>
          if regular_file then
            (case stat file_path of
               Inl err \<Rightarrow> group_loop rest groups
             | Inr st \<Rightarrow> group_loop rest (setdefault_append (st_size st) file_path groups))
          else group_loop rest groups)"

definition duplicate_reason :: "nat \<Rightarrow> string" where
  "duplicate_reason n = ''Potential duplicate ('' @ str_nat n @ '' files with same size)''"

text \<open>The inner loop \<^verbatim>\<open>for file_path in files[1:]\<close>; \<open>n\<close> is \<^verbatim>\<open>len(files)\<close>.\<close>

fun mark_loop :: "nat \<Rightarrow> nat \<Rightarrow> entry list \<Rightarrow> finding list \<Rightarrow> nat \<Rightarrow> finding list \<times> nat" where
  "mark_loop sz n [] results total_size = (results, total_size)"
| "mark_loop sz n (file_path # rest) results total_size =
     mark_loop sz n rest
       (results @ [\<lparr>path = rel_path file_path, size_mb = round_mb sz,
                    reason = duplicate_reason n\<rparr>])
       (total_size + sz)"

fun check_loop :: "size_groups \<Rightarrow> finding list \<Rightarrow> nat \<Rightarrow> finding list \<times> nat" where
  "check_loop [] results total_size = (results, total_size)"
| "check_loop ((sz, files) # groups) results total_size =
     (if 1 < length files \<and> 0 < sz then
        (case mark_loop sz (length files) (drop 1 files) results total_size of
           (results', total_size') \<Rightarrow> check_loop groups results' total_size')
      else check_loop groups results total_size)"

definition scan_duplicates :: "entry list \<Rightarrow> scan_result" where
  "scan_duplicates walk =
     (case group_loop walk [] of
        Inl raised \<Rightarrow> Inl raised
      | Inr size_groups \<Rightarrow> Inr (check_loop size_groups [] 0))"


section \<open>The tool's arguments\<close>

text \<open>
  \<^verbatim>\<open>use(*args, **kwargs)\<close> receives arbitrary Python values: from the caller directly, or
  out of \<^verbatim>\<open>json.loads\<close>. A \<^verbatim>\<open>dict\<close> is an association list read with \<^const>\<open>map_of\<close>.
\<close>

datatype pyval =
    PNone
  | PBool bool
  | PInt int
  | PFloat pyfloat
  | PStr string
  | PList "pyval list"
  | PDict "(string \<times> pyval) list"

text \<open>The exceptions that occur; \<open>OSErr\<close> is an \<^verbatim>\<open>OSError\<close> of the file system.\<close>

datatype exn =
  TypeError | ValueError | OverflowError | AttributeError | RuntimeError | OSErr os_error

fun truthy :: "pyval \<Rightarrow> bool" where
  "truthy PNone = False"
| "truthy (PBool b) = b"
| "truthy (PInt i) = (i \<noteq> 0)"
| "truthy (PFloat x) = (x \<noteq> Finite 0)"
| "truthy (PStr s) = (s \<noteq> [])"
| "truthy (PList vs) = (vs \<noteq> [])"
| "truthy (PDict kvs) = (kvs \<noteq> [])"

text \<open>\<^verbatim>\<open>d.get(key, default)\<close>\<close>

definition py_get :: "(string \<times> pyval) list \<Rightarrow> string \<Rightarrow> pyval \<Rightarrow> pyval" where
  "py_get d key dflt = (case map_of d key of Some v \<Rightarrow> v | None \<Rightarrow> dflt)"

subsection \<open>The builtin \<^verbatim>\<open>float\<close>\<close>

text \<open>
  The largest finite double is \<open>2^1024 - 2^971\<close>; a value of magnitude \<open>2^1024 - 2^970\<close> or
  more does not round to a finite double.
\<close>

definition too_large :: "rat \<Rightarrow> bool" where
  "too_large r = (2 ^ 1024 - 2 ^ 970 \<le> \<bar>r\<bar>)"

definition is_digit :: "char \<Rightarrow> bool" where
  "is_digit c = (c \<in> set ''0123456789'')"

definition digit_value :: "char \<Rightarrow> nat" where
  "digit_value c = (case map_of (zip ''0123456789'' [0 ..< 10]) c of Some d \<Rightarrow> d | None \<Rightarrow> 0)"

definition digits_value :: "string \<Rightarrow> nat" where
  "digits_value ds = foldl (\<lambda>acc c. 10 * acc + digit_value c) 0 ds"

text \<open>
  Underscores in a numeric literal are allowed only between two digits; the literal is
  parsed without them (\<^verbatim>\<open>_Py_string_to_number_with_underscores\<close>).
\<close>

fun drop_underscores :: "char \<Rightarrow> string \<Rightarrow> string option" where
  "drop_underscores prev [] = (if prev = CHR ''_'' then None else Some [])"
| "drop_underscores prev (c # cs) =
     (if c = CHR ''_'' then
        (if is_digit prev then drop_underscores c cs else None)
      else if prev = CHR ''_'' \<and> \<not> is_digit c then None
      else map_option ((#) c) (drop_underscores c cs))"

definition split_sign :: "string \<Rightarrow> bool \<times> string" where
  "split_sign s =
     (case s of
        c # cs \<Rightarrow> if c = CHR ''-'' then (True, cs) else if c = CHR ''+'' then (False, cs)
                  else (False, s)
      | [] \<Rightarrow> (False, s))"

text \<open>The exponent part \<^verbatim>\<open>[eE][+-]?digits\<close>, which has to reach the end of the literal.\<close>

definition parse_exponent :: "string \<Rightarrow> int option" where
  "parse_exponent s =
     (case s of
        [] \<Rightarrow> Some 0
      | c # cs \<Rightarrow>
          if c = CHR ''e'' \<or> c = CHR ''E'' then
            (case split_sign cs of
               (neg, ds) \<Rightarrow>
                 if ds \<noteq> [] \<and> list_all is_digit ds
                 then Some (if neg then - int (digits_value ds) else int (digits_value ds))
                 else None)
          else None)"

text \<open>
  A decimal literal \<^verbatim>\<open>digits[.digits][exponent]\<close> or \<^verbatim>\<open>.digits[exponent]\<close>, read as the
  rational it denotes.
\<close>

definition parse_decimal :: "string \<Rightarrow> rat option" where
  "parse_decimal s =
     (let ipart = takeWhile is_digit s;
          r1 = dropWhile is_digit s;
          has_point = (r1 \<noteq> [] \<and> hd r1 = CHR ''.'');
          fpart = (if has_point then takeWhile is_digit (tl r1) else []);
          r2 = (if has_point then dropWhile is_digit (tl r1) else r1)
      in if ipart = [] \<and> fpart = [] then None
         else (case parse_exponent r2 of
                 None \<Rightarrow> None
               | Some e \<Rightarrow>
                   (let m = of_nat (digits_value (ipart @ fpart)) :: rat;
                        e10 = e - int (length fpart)
                    in Some (if 0 \<le> e10 then m * 10 ^ nat e10 else m / 10 ^ nat (- e10)))))"

text \<open>\<^verbatim>\<open>float(s)\<close> for a string; \<open>None\<close> is \<^verbatim>\<open>ValueError\<close>.\<close>

definition float_of_str :: "string \<Rightarrow> pyfloat option" where
  "float_of_str s =
     (case drop_underscores (CHR 0x00) (strip s) of
        None \<Rightarrow> None
      | Some t \<Rightarrow>
          (case split_sign t of
             (neg, body) \<Rightarrow>
               if lower body = ''inf'' \<or> lower body = ''infinity''
               then Some (if neg then NegInf else PosInf)
               else if lower body = ''nan'' then Some NaN
               else (case parse_decimal body of
                       None \<Rightarrow> None
                     | Some r \<Rightarrow>
                         if too_large r then Some (if neg then NegInf else PosInf)
                         else Some (Finite (if neg then - r else r)))))"

text \<open>\<^verbatim>\<open>float(v)\<close>\<close>

fun py_float :: "pyval \<Rightarrow> exn + pyfloat" where
  "py_float PNone = Inl TypeError"
| "py_float (PBool b) = Inr (Finite (if b then 1 else 0))"
| "py_float (PInt i) = (if too_large (of_int i) then Inl OverflowError else Inr (Finite (of_int i)))"
| "py_float (PFloat x) = Inr x"
| "py_float (PStr s) = (case float_of_str s of None \<Rightarrow> Inl ValueError | Some x \<Rightarrow> Inr x)"
| "py_float (PList vs) = Inl TypeError"
| "py_float (PDict kvs) = Inl TypeError"

subsection \<open>Input parsing\<close>

text \<open>
  \<^verbatim>\<open>re.search(r'"path"\s*:\s*([\'"])(.+?)\1', raw)\<close>, group 2. After the opening quote the
  lazy \<^verbatim>\<open>.+?\<close> takes one character and then as few more as possible up to the same quote;
  \<^verbatim>\<open>.\<close> does not match a newline.
\<close>

definition dquote :: char where
  "dquote = CHR 0x22"

definition squote :: char where
  "squote = CHR 0x27"

definition newline :: char where
  "newline = CHR 0x0A"

definition backslash :: char where
  "backslash = CHR 0x5C"

fun re_body :: "char \<Rightarrow> string \<Rightarrow> string option" where
  "re_body q [] = None"
| "re_body q (c # cs) =
     (if c = q then Some []
      else if c = newline then None
      else map_option ((#) c) (re_body q cs))"

definition re_match_path :: "string \<Rightarrow> string option" where
  "re_match_path s =
     (if startswith s ([dquote] @ ''path'' @ [dquote]) then
        (case dropWhile isspace (drop 6 s) of
           c # s1 \<Rightarrow>
             if c = CHR '':'' then
               (case dropWhile isspace s1 of
                  q # b # s2 \<Rightarrow>
                    if (q = squote \<or> q = dquote) \<and> b \<noteq> newline
                    then map_option ((#) b) (re_body q s2)
                    else None
                | _ \<Rightarrow> None)
             else None
         | [] \<Rightarrow> None)
      else None)"

fun re_search_path :: "string \<Rightarrow> string option" where
  "re_search_path [] = None"
| "re_search_path (c # cs) =
     (case re_match_path (c # cs) of
        Some body \<Rightarrow> Some body
      | None \<Rightarrow> re_search_path cs)"

text \<open>
  What the scanner asks of the machine it runs on. Paths are the strings \<^verbatim>\<open>str(p)\<close> of the
  \<^verbatim>\<open>Path\<close> objects. \<open>json_loads_fix\<close> is the first component of what
  \<^verbatim>\<open>_try_parse_json_with_backslash_fix\<close> returns (the value \<^verbatim>\<open>json.loads\<close> parsed, \<open>None\<close>
  when the text is not JSON); \<open>expand\<close> is
  \<^verbatim>\<open>Path(os.path.expanduser(os.path.expandvars(s))).resolve()\<close>; \<open>joinpath\<close> is the \<^verbatim>\<open>/\<close> of
  pathlib; \<open>clock\<close> gives the readings of \<^verbatim>\<open>time.time()\<close>.
\<close>

record host =
  os_name :: string
  cwd :: string
  home :: string
  userprofile :: string
  joinpath :: "string \<Rightarrow> string \<Rightarrow> string"
  expand :: "string \<Rightarrow> exn + string"
  exists :: "string \<Rightarrow> bool"
  is_dir :: "string \<Rightarrow> bool"
  rglob :: "string \<Rightarrow> entry list"
  clock :: "nat \<Rightarrow> rat"
  json_loads_fix :: "string \<Rightarrow> pyval option"

text \<open>The parameters after input parsing: path, min_size_mb, extensions, scan_type.\<close>

type_synonym params = "pyval \<times> pyfloat \<times> pyval \<times> pyval"

definition from_dict :: "(string \<times> pyval) list \<Rightarrow> exn + params" where
  "from_dict d =
     (let pth = py_get d ''path'' (PStr ''.'') in
      case py_float (py_get d ''min_size_mb'' (PFloat (Finite 10))) of
        Inl e \<Rightarrow> Inl e
      | Inr min_size_mb \<Rightarrow>
          Inr (pth, min_size_mb, py_get d ''extensions'' (PStr []),
               py_get d ''scan_type'' (PStr ''large_files'')))"

definition from_text :: "string \<Rightarrow> params" where
  "from_text tool_input =
     (let parts = map strip (split_on CHR '','' tool_input);
          raw = hd parts;
          raw' = (case re_search_path raw of Some body \<Rightarrow> body | None \<Rightarrow> raw);
          extensions = (if 1 < length parts then parts ! 1 else []);
          stype = (if 2 < length parts then parts ! 2 else ''large_files'')
      in (PStr raw', Finite 10, PStr extensions, PStr stype))"

definition parse_input :: "host \<Rightarrow> pyval list \<Rightarrow> (string \<times> pyval) list \<Rightarrow> exn + params" where
  "parse_input h args kwargs =
     (case args of
        PStr tool_input # _ \<Rightarrow>
          (case json_loads_fix h tool_input of
             Some (PDict parsed) \<Rightarrow> from_dict parsed
           | _ \<Rightarrow> Inr (from_text tool_input))
      | _ \<Rightarrow>
          if kwargs \<noteq> [] then from_dict kwargs
          else Inr (PStr ''.'', Finite 10, PStr [], PStr ''large_files''))"


section \<open>The scan operation\<close>

subsection \<open>Path resolution\<close>

definition download_candidates :: "host \<Rightarrow> string list" where
  "download_candidates h =
     [joinpath h (home h) ''Downloads'', joinpath h (home h) ''downloads''] @
     (if os_name h = ''nt'' \<and> userprofile h \<noteq> []
      then [joinpath h (userprofile h) ''Downloads'',
            joinpath h (joinpath h (userprofile h) ''OneDrive'') ''Downloads'']
      else [])"

text \<open>
  \<^verbatim>\<open>_resolve_scan_path(raw_path)\<close>. A falsy value gives the working directory; any other
  value that is not a string has no \<^verbatim>\<open>strip\<close> method.
\<close>

definition resolve_scan_path :: "host \<Rightarrow> pyval \<Rightarrow> exn + string" where
  "resolve_scan_path h raw_path =
     (if \<not> truthy raw_path then Inr (cwd h)
      else (case raw_path of
              PStr s \<Rightarrow>
                (let alias = lower (strip_chars [squote] (strip_chars [dquote] (strip s))) in
                 if alias \<in> set [''downloads'', ''download'', ''dl''] then
                   (case find (\<lambda>c. exists h c \<and> is_dir h c) (download_candidates h) of
                      Some c \<Rightarrow> Inr c
                    | None \<Rightarrow> Inr (joinpath h (home h) ''Downloads''))
                 else expand h (strip_chars [squote] (strip_chars [dquote] s)))
            | _ \<Rightarrow> Inl AttributeError))"

subsection \<open>Extension normalization\<close>

text \<open>The loop \<^verbatim>\<open>for e in extensions.split(",")\<close> of \<^verbatim>\<open>use\<close>, appending to \<^verbatim>\<open>ext_list\<close>.\<close>

fun normalize_loop :: "string list \<Rightarrow> string list \<Rightarrow> string list" where
  "normalize_loop [] ext_list = ext_list"
| "normalize_loop (e # rest) ext_list =
     (let e1 = lower (strip e) in
      if e1 = [] then normalize_loop rest ext_list
      else (let e2 = (if \<not> startswith e1 ''.'' then ''.'' @ e1 else e1)
            in normalize_loop rest (ext_list @ [e2])))"

definition normalize_extensions :: "string \<Rightarrow> string list" where
  "normalize_extensions extensions =
     (if extensions \<noteq> [] then normalize_loop (split_on CHR '','' extensions) [] else [])"

text \<open>
  \<^verbatim>\<open>extensions\<close> may be any value: a falsy one gives the empty list, a string is normalized,
  and any other value has no \<^verbatim>\<open>split\<close> method.
\<close>

definition ext_list_of :: "pyval \<Rightarrow> exn + string list" where
  "ext_list_of extensions =
     (if truthy extensions then
        (case extensions of
           PStr s \<Rightarrow> Inr (normalize_extensions s)
         | _ \<Rightarrow> Inl AttributeError)
      else Inr [])"

subsection \<open>Dispatch and report\<close>

record report =
  scan_type :: string
  scan_path :: string
  files_found :: nat
  total_size_mb :: rat
  files :: "finding list"
  note_text :: string

datatype hint = WindowsBackslashHint | DefaultHint

text \<open>
  The four JSON objects with an \<^verbatim>\<open>"error"\<close> key that \<^verbatim>\<open>use\<close> returns, with the values
  their messages are built from: the path as given, the resolved path, the hint, the
  scan type as given, the exception caught.
\<close>

datatype error_result =
    PathDoesNotExist pyval string hint
  | NotADirectory pyval string
  | UnknownScanType pyval
  | ScanFailed exn

datatype response = ErrorResponse error_result | ReportResponse report

text \<open>What a call of \<^verbatim>\<open>use\<close> does: it returns a value, or an exception leaves it.\<close>

datatype outcome = Return response | Raise exn

text \<open>
  The \<^verbatim>\<open>if\<close>/\<^verbatim>\<open>elif\<close> chain on \<^verbatim>\<open>scan_type\<close>; \<open>None\<close> is the final \<^verbatim>\<open>else\<close>. The scanning
  method that is called returns or raises.
\<close>

definition run_scan ::
  "host \<Rightarrow> string \<Rightarrow> pyfloat \<Rightarrow> string list \<Rightarrow> pyval \<Rightarrow> (string \<times> scan_result) option" where
  "run_scan h sp min_size_mb ext_list stype =
     (if stype = PStr ''large_files''
        then Some (''large_files'', scan_large_files (rglob h sp) min_size_mb ext_list)
      else if stype = PStr ''temp_files''
        then Some (''temp_files'', scan_temp_files (rglob h sp))
      else if stype = PStr ''old_files''
        then Some (''old_files'', scan_old_files (clock h) (rglob h sp) 180)
      else if stype = PStr ''duplicates''
        then Some (''duplicates'', scan_duplicates (rglob h sp))
      else None)"

definition make_report :: "string \<Rightarrow> string \<Rightarrow> finding list \<Rightarrow> nat \<Rightarrow> report" where
  "make_report stype sp results total_size =
     \<lparr>scan_type = stype,
      scan_path = sp,
      files_found = length results,
      total_size_mb = round_mb total_size,
      files = take 20 results,
      note_text = (if 20 < length results then ''Limited to first 20 files'' else ''All files shown'')\<rparr>"

text \<open>
  The \<^verbatim>\<open>try\<close> block of \<^verbatim>\<open>use\<close>; its handler turns every exception into \<open>ScanFailed\<close>, also
  the one that leaves a scanning method.
\<close>

definition use_body :: "host \<Rightarrow> pyval \<Rightarrow> pyfloat \<Rightarrow> pyval \<Rightarrow> pyval \<Rightarrow> response" where
  "use_body h pth min_size_mb extensions stype =
     (case resolve_scan_path h pth of
        Inl e \<Rightarrow> ErrorResponse (ScanFailed e)
      | Inr sp \<Rightarrow>
          (let p = (case pth of PStr s \<Rightarrow> s | _ \<Rightarrow> []);
               hnt = (if os_name h = ''nt'' \<and> str_in [backslash] p
                         \<and> \<not> str_in [backslash, backslash] p
                      then WindowsBackslashHint else DefaultHint)
           in if \<not> exists h sp then ErrorResponse (PathDoesNotExist pth sp hnt)
              else if \<not> is_dir h sp then ErrorResponse (NotADirectory pth sp)
              else (case ext_list_of extensions of
                      Inl e \<Rightarrow> ErrorResponse (ScanFailed e)
                    | Inr ext_list \<Rightarrow>
                        (case run_scan h sp min_size_mb ext_list stype of
                           None \<Rightarrow> ErrorResponse (UnknownScanType stype)
                         | Some (st, Inl raised) \<Rightarrow> ErrorResponse (ScanFailed (OSErr raised))
                         | Some (st, Inr (results, total_size)) \<Rightarrow>
                             ReportResponse (make_report st sp results total_size)))))"

definition use :: "host \<Rightarrow> pyval list \<Rightarrow> (string \<times> pyval) list \<Rightarrow> outcome" where
  "use h args kwargs =
     (case parse_input h args kwargs of
        Inl e \<Rightarrow> Raise e
      | Inr (pth, min_size_mb, extensions, stype) \<Rightarrow>
          Return (use_body h pth min_size_mb extensions stype))"


section \<open>What the classifiers are to compute\<close>

text \<open>
  What the first \<^verbatim>\<open>is_file()\<close> call that raises, if there is one, raises. A scan returns
  when there is none.
\<close>

fun is_file_error :: "entry list \<Rightarrow> os_error option" where
  "is_file_error [] = None"
| "is_file_error (e # rest) =
     (case is_file e of
        Inl raised \<Rightarrow> Some raised
      | Inr regular_file \<Rightarrow> is_file_error rest)"

text \<open>
  The readable regular files of a walk, each with its metadata, in walk order: the entries
  for which \<^verbatim>\<open>is_file()\<close> answers \<^verbatim>\<open>True\<close> and \<^verbatim>\<open>stat()\<close> succeeds.
\<close>

fun regular_files :: "entry list \<Rightarrow> (entry \<times> stat_result) list" where
  "regular_files [] = []"
| "regular_files (e # rest) =
     (if is_file e = Inr True then
        (case stat e of
           Inl err \<Rightarrow> regular_files rest
         | Inr st \<Rightarrow> (e, st) # regular_files rest)
      else regular_files rest)"

text \<open>The sum of the raw byte sizes of a list of files.\<close>

definition total_bytes :: "(entry \<times> stat_result) list \<Rightarrow> nat" where
  "total_bytes qs = sum_list (map (\<lambda>(e, st). st_size st) qs)"

text \<open>The Finding of a file: its relative path, its size in megabytes, and a reason.\<close>

definition mk_finding :: "string \<Rightarrow> entry \<times> stat_result \<Rightarrow> finding" where
  "mk_finding why =
     (\<lambda>(e, st). \<lparr>path = rel_path e, size_mb = round_mb (st_size st), reason = why\<rparr>)"

text \<open>
  Large-File: the size is at least the minimum, and the extension filter is empty or holds
  the lower-cased extension of the file.
\<close>

definition large_ok :: "pyfloat \<Rightarrow> string list \<Rightarrow> entry \<times> stat_result \<Rightarrow> bool" where
  "large_ok min_size_mb E =
     (\<lambda>(e, st). int_ge_float (st_size st) (fmul (fmul min_size_mb 1024) 1024) \<and>
                 (E = [] \<or> lower (suffix (name e)) \<in> set E))"

text \<open>
  Stale-File: the Finding of the file that qualifies as the \<open>k\<close>-th reading of the clock is
  taken; the age shown is computed from that reading.
\<close>

definition old_finding :: "(nat \<Rightarrow> rat) \<Rightarrow> nat \<times> entry \<times> stat_result \<Rightarrow> finding" where
  "old_finding clk =
     (\<lambda>(k, e, st).
        \<lparr>path = rel_path e, size_mb = round_mb (st_size st),
         reason = ''Not modified in '' @ str_int (py_int ((clk k - st_mtime st) / 86400))
                    @ '' days''\<rparr>)"

text \<open>A readable regular file at the top of the scan root, for the examples.\<close>

definition regular :: "string \<Rightarrow> nat \<Rightarrow> rat \<Rightarrow> entry" where
  "regular nm sz mtime =
     \<lparr>rel_path = nm, name = nm, is_file = Inr True,
      stat = Inr \<lparr>st_size = sz, st_mtime = mtime\<rparr>\<rparr>"

text \<open>
  A file in a directory that may be listed but not searched, as a directory of mode
  \<open>0444\<close> is for another user: \<^verbatim>\<open>rglob\<close> yields the file, and every \<^verbatim>\<open>stat\<close> of it, also the one
  in \<^verbatim>\<open>is_file()\<close>, raises \<^verbatim>\<open>PermissionError\<close>.
\<close>

definition inaccessible :: "string \<Rightarrow> string \<Rightarrow> entry" where
  "inaccessible rel nm =
     \<lparr>rel_path = rel, name = nm, is_file = Inl PermissionError, stat = Inl PermissionError\<rparr>"


text \<open>
  Duplicate-Candidate: the byte sizes in the order in which they first occur in the walk,
  the files of one size in walk order, and for a group what it contributes: nothing when
  it has fewer than two members or the size is zero, otherwise every member but the first,
  each with the member count of the whole group in its reason.
\<close>

fun first_occ :: "'a list \<Rightarrow> 'a list" where
  "first_occ [] = []"
| "first_occ (x # xs) = x # removeAll x (first_occ xs)"

definition members :: "nat \<Rightarrow> (entry \<times> stat_result) list \<Rightarrow> entry list" where
  "members sz rf = map fst (filter (\<lambda>(e, st). st_size st = sz) rf)"

definition sizes :: "(entry \<times> stat_result) list \<Rightarrow> nat list" where
  "sizes rf = first_occ (map (\<lambda>(e, st). st_size st) rf)"

definition marked :: "nat \<Rightarrow> entry list \<Rightarrow> entry list" where
  "marked sz fs = (if 2 \<le> length fs \<and> 0 < sz then tl fs else [])"

definition dup_finding :: "nat \<Rightarrow> nat \<Rightarrow> entry \<Rightarrow> finding" where
  "dup_finding sz n e = \<lparr>path = rel_path e, size_mb = round_mb sz, reason = duplicate_reason n\<rparr>"

definition group_findings :: "nat \<Rightarrow> entry list \<Rightarrow> finding list" where
  "group_findings sz fs = map (dup_finding sz (length fs)) (marked sz fs)"

definition size_groups_of :: "(entry \<times> stat_result) list \<Rightarrow> size_groups" where
  "size_groups_of rf = map (\<lambda>sz. (sz, members sz rf)) (sizes rf)"


text \<open>
  Extension normalization in the words of its description: split at commas, trim and
  lower-case every token, drop the empty ones, prefix a dot where it is missing.
\<close>

definition add_dot :: "string \<Rightarrow> string" where
  "add_dot t = (if startswith t ''.'' then t else ''.'' @ t)"

definition normalized :: "string \<Rightarrow> string list" where
  "normalized s =
     map add_dot (filter (\<lambda>t. t \<noteq> []) (map (\<lambda>t. lower (strip t)) (split_on CHR '','' s)))"

text \<open>
  A machine for the examples: the directory \<open>/data\<close> exists and holds the given walk,
  nothing else exists.
\<close>

definition demo_host :: "entry list \<Rightarrow> host" where
  "demo_host walk =
     \<lparr>os_name = ''posix'', cwd = ''/data'', home = ''/home/user'', userprofile = [],
      joinpath = (\<lambda>a b. a @ ''/'' @ b), expand = (\<lambda>s. Inr s),
      exists = (\<lambda>p. p = ''/data''), is_dir = (\<lambda>p. p = ''/data''),
      rglob = (\<lambda>p. if p = ''/data'' then walk else []),
      clock = (\<lambda>k. 1700000000 + of_nat k), json_loads_fix = (\<lambda>s. None)\<rparr>"






section \<open>Properties of the loops\<close>

lemma total_bytes_Nil [simp]: "total_bytes [] = 0"
  by (simp add: total_bytes_def)

lemma total_bytes_Cons [simp]: "total_bytes ((e, st) # qs) = st_size st + total_bytes qs"
  by (simp add: total_bytes_def)

lemma total_bytes_append [simp]: "total_bytes (xs @ ys) = total_bytes xs + total_bytes ys"
  by (simp add: total_bytes_def)

lemma scan_large_loop_eq:
  "scan_large_loop (fmul (fmul m 1024) 1024) E walk results tot =
     (case is_file_error walk of
        Some raised \<Rightarrow> Inl raised
      | None \<Rightarrow>
          Inr (results @ map (mk_finding ''Large file'')
                           (filter (large_ok m E) (regular_files walk)),
               tot + total_bytes (filter (large_ok m E) (regular_files walk))))"
proof (induction walk arbitrary: results tot)
  case Nil
  show ?case by simp
next
  case (Cons e rest)
  show ?case
  proof (cases "is_file e")
    case (Inl raised)
    then show ?thesis by simp
  next
    case (Inr regular_file)
    note f = this
    show ?thesis
    proof (cases regular_file)
      case False
      with f show ?thesis by (simp add: Cons.IH split: option.split)
    next
      case True
      show ?thesis
      proof (cases "stat e")
        case (Inl err)
        with f True show ?thesis by (simp add: Cons.IH split: option.split)
      next
        case (Inr st)
        with f True show ?thesis
          by (simp add: Cons.IH Let_def large_ok_def mk_finding_def split: option.split)
      qed
    qed
  qed
qed

lemma scan_large_files_eq:
  "scan_large_files walk m E =
     (case is_file_error walk of
        Some raised \<Rightarrow> Inl raised
      | None \<Rightarrow>
          Inr (sort_reverse size_mb
                 (map (mk_finding ''Large file'') (filter (large_ok m E) (regular_files walk))),
               total_bytes (filter (large_ok m E) (regular_files walk))))"
  by (simp add: scan_large_files_def scan_large_loop_eq split: option.split)

lemma scan_temp_loop_eq:
  "scan_temp_loop walk results tot =
     (case is_file_error walk of
        Some raised \<Rightarrow> Inl raised
      | None \<Rightarrow>
          Inr (results @ map (mk_finding ''Temporary file'')
                           (filter (\<lambda>(e, st). is_temp e) (regular_files walk)),
               tot + total_bytes (filter (\<lambda>(e, st). is_temp e) (regular_files walk))))"
proof (induction walk arbitrary: results tot)
  case Nil
  show ?case by simp
next
  case (Cons e rest)
  show ?case
  proof (cases "is_file e")
    case (Inl raised)
    then show ?thesis by simp
  next
    case (Inr regular_file)
    note f = this
    show ?thesis
    proof (cases regular_file)
      case False
      with f show ?thesis by (simp add: Cons.IH split: option.split)
    next
      case True
      show ?thesis
      proof (cases "stat e")
        case (Inl err)
        with f True show ?thesis by (simp add: Cons.IH split: option.split)
      next
        case (Inr st)
        with f True show ?thesis
          by (simp add: Cons.IH Let_def mk_finding_def split: option.split)
      qed
    qed
  qed
qed

lemma scan_old_loop_eq:
  "scan_old_loop clk cutoff walk k results tot =
     (case is_file_error walk of
        Some raised \<Rightarrow> Inl raised
      | None \<Rightarrow>
          Inr (results @ map (old_finding clk)
                           (enumerate k (filter (\<lambda>(e, st). st_mtime st < cutoff)
                                           (regular_files walk))),
               tot + total_bytes (filter (\<lambda>(e, st). st_mtime st < cutoff)
                                    (regular_files walk))))"
proof (induction walk arbitrary: k results tot)
  case Nil
  show ?case by simp
next
  case (Cons e rest)
  show ?case
  proof (cases "is_file e")
    case (Inl raised)
    then show ?thesis by simp
  next
    case (Inr regular_file)
    note f = this
    show ?thesis
    proof (cases regular_file)
      case False
      with f show ?thesis by (simp add: Cons.IH split: option.split)
    next
      case True
      show ?thesis
      proof (cases "stat e")
        case (Inl err)
        with f True show ?thesis by (simp add: Cons.IH split: option.split)
      next
        case (Inr st)
        with f True show ?thesis
          by (simp add: Cons.IH Let_def old_finding_def split: option.split)
      qed
    qed
  qed
qed

lemma sort_reverse_sorted: "sorted_wrt (\<lambda>a b. f b \<le> f a) (sort_reverse f xs)"
proof -
  have "sorted (map f (sort_key f (rev xs)))"
    by (rule sorted_sort_key)
  then have "sorted_wrt (\<lambda>a b. f a \<le> f b) (sort_key f (rev xs))"
    by (simp add: sorted_map)
  then show ?thesis
    unfolding sort_reverse_def by (simp add: sorted_wrt_rev)
qed

lemma sort_reverse_stable:
  "filter (\<lambda>y. f y = k) (sort_reverse f xs) = filter (\<lambda>y. f y = k) xs"
  unfolding sort_reverse_def
  by (simp add: sort_key_stable flip: rev_filter)

lemma length_sort_reverse [simp]: "length (sort_reverse f xs) = length xs"
  by (simp add: sort_reverse_def)

lemma set_sort_reverse [simp]: "set (sort_reverse f xs) = set xs"
  by (simp add: sort_reverse_def)

lemma lower_suffix_examples:
  "lower (suffix ''backup.zip'') = ''.zip''"
  "lower (suffix ''small.zip'') = ''.zip''"
  "lower (suffix ''notes.txt'') = ''.txt''"
  by (simp_all add: suffix_def lower_def lower_char_def Let_def)


section \<open>Large files: qualification and order\<close>

text \<open>
  Claim C2. In large_files mode with a minimum of \<open>m\<close> megabytes and the normalized
  extension filter \<open>E\<close>, the scan returns unless an \<^verbatim>\<open>is_file()\<close> call raises, and the
  Findings are those of the readable regular files whose byte size is at least
  \<open>m * 1024 * 1024\<close> and whose lower-cased extension is in \<open>E\<close> when \<open>E\<close> is not empty, the
  total is the sum of their sizes, and the Findings come sorted by descending \<open>size_mb\<close>
  with equal sizes kept in walk order (for every key \<open>k\<close>, the Findings of that key are in
  the order of the walk). With \<open>m = 50\<close> and \<open>E = ['.iso', '.zip']\<close> a 60 MB \<open>.zip\<close> file
  qualifies, a 60 MB \<open>.txt\<close> file and a 10 MB \<open>.zip\<close> file do not.
\<close>

theorem large_files_spec:
  "scan_large_files walk (Finite m) E =
     (case is_file_error walk of
        Some raised \<Rightarrow> Inl raised
      | None \<Rightarrow>
          Inr (sort_reverse size_mb
                 (map (mk_finding ''Large file'')
                    (filter (large_ok (Finite m) E) (regular_files walk))),
               total_bytes (filter (large_ok (Finite m) E) (regular_files walk))))
   \<and> large_ok (Finite m) E (e, st) =
       (m * 1024 * 1024 \<le> of_nat (st_size st) \<and> (E = [] \<or> lower (suffix (name e)) \<in> set E))
   \<and> (scan_large_files walk (Finite m) E = Inr (results, tot) \<longrightarrow>
        sorted_wrt (\<lambda>a b. size_mb b \<le> size_mb a) results
        \<and> filter (\<lambda>f. size_mb f = k) results =
            filter (\<lambda>f. size_mb f = k)
              (map (mk_finding ''Large file'')
                 (filter (large_ok (Finite m) E) (regular_files walk))))
   \<and> large_ok (Finite 50) [''.iso'', ''.zip'']
       (e\<lparr>name := ''backup.zip''\<rparr>, st\<lparr>st_size := 60 * 1024 * 1024\<rparr>)
   \<and> \<not> large_ok (Finite 50) [''.iso'', ''.zip'']
       (e\<lparr>name := ''notes.txt''\<rparr>, st\<lparr>st_size := 60 * 1024 * 1024\<rparr>)
   \<and> \<not> large_ok (Finite 50) [''.iso'', ''.zip'']
       (e\<lparr>name := ''backup.zip''\<rparr>, st\<lparr>st_size := 10 * 1024 * 1024\<rparr>)"
proof -
  have a: "large_ok (Finite m) E (e, st) =
       (m * 1024 * 1024 \<le> of_nat (st_size st) \<and> (E = [] \<or> lower (suffix (name e)) \<in> set E))"
    by (simp add: large_ok_def)
  have b: "large_ok (Finite 50) [''.iso'', ''.zip'']
       (e\<lparr>name := ''backup.zip''\<rparr>, st\<lparr>st_size := 60 * 1024 * 1024\<rparr>)"
    by (simp add: large_ok_def lower_suffix_examples)
  have c: "\<not> large_ok (Finite 50) [''.iso'', ''.zip'']
       (e\<lparr>name := ''notes.txt''\<rparr>, st\<lparr>st_size := 60 * 1024 * 1024\<rparr>)"
    by (simp add: large_ok_def lower_suffix_examples)
  have d: "\<not> large_ok (Finite 50) [''.iso'', ''.zip'']
       (e\<lparr>name := ''backup.zip''\<rparr>, st\<lparr>st_size := 10 * 1024 * 1024\<rparr>)"
    by (simp add: large_ok_def lower_suffix_examples)
  have s: "sorted_wrt (\<lambda>a b. size_mb b \<le> size_mb a) results
        \<and> filter (\<lambda>f. size_mb f = k) results =
            filter (\<lambda>f. size_mb f = k)
              (map (mk_finding ''Large file'')
                 (filter (large_ok (Finite m) E) (regular_files walk)))"
    if "scan_large_files walk (Finite m) E = Inr (results, tot)"
  proof -
    from that have "results = sort_reverse size_mb
        (map (mk_finding ''Large file'') (filter (large_ok (Finite m) E) (regular_files walk)))"
      by (simp add: scan_large_files_eq split: option.splits)
    then show ?thesis
      by (simp add: sort_reverse_sorted sort_reverse_stable)
  qed
  from scan_large_files_eq [of walk "Finite m" E] a s b c d show ?thesis
    by blast
qed

theorem large_files_spec_witness:
  "is_file_error
     [regular ''backup.zip'' (60 * 1024 * 1024) 0, regular ''notes.txt'' (60 * 1024 * 1024) 0,
      regular ''small.zip'' (10 * 1024 * 1024) 0] = None
   \<and> scan_large_files
     [regular ''backup.zip'' (60 * 1024 * 1024) 0, regular ''notes.txt'' (60 * 1024 * 1024) 0,
      regular ''small.zip'' (10 * 1024 * 1024) 0]
     (Finite 50) [''.iso'', ''.zip''] =
   Inr ([\<lparr>path = ''backup.zip'', size_mb = 60, reason = ''Large file''\<rparr>], 62914560)"
  using large_files_spec [of
      "[regular ''backup.zip'' (60 * 1024 * 1024) 0, regular ''notes.txt'' (60 * 1024 * 1024) 0,
        regular ''small.zip'' (10 * 1024 * 1024) 0]" 50 "[''.iso'', ''.zip'']"]
  by (simp add: regular_def large_ok_def lower_suffix_examples mk_finding_def sort_reverse_def
        round_mb_def py_round2_def round_half_even_def Let_def)


section \<open>Duplicates: grouping by size\<close>

lemma set_first_occ [simp]: "set (first_occ xs) = set xs"
  by (induction xs) auto

lemma distinct_first_occ [simp]: "distinct (first_occ xs)"
  by (induction xs) (auto simp: distinct_removeAll)

lemma first_occ_snoc:
  "first_occ (xs @ [x]) = (if x \<in> set xs then first_occ xs else first_occ xs @ [x])"
  by (induction xs) auto

lemma members_snoc:
  "members s (rf @ [(e, st)]) = members s rf @ (if st_size st = s then [e] else [])"
  by (simp add: members_def)

lemma members_empty: "s \<notin> set (sizes rf) \<Longrightarrow> members s rf = []"
  by (auto simp: members_def sizes_def filter_empty_conv)

lemma setdefault_append_map:
  "distinct ss \<Longrightarrow>
   setdefault_append sz e (map (\<lambda>s. (s, F s)) ss) =
     (if sz \<in> set ss then map (\<lambda>s. (s, if s = sz then F s @ [e] else F s)) ss
      else map (\<lambda>s. (s, F s)) ss @ [(sz, [e])])"
  by (induction ss) auto

lemma size_groups_of_snoc:
  "size_groups_of (rf @ [(e, st)]) = setdefault_append (st_size st) e (size_groups_of rf)"
proof (cases "st_size st \<in> set (sizes rf)")
  case True
  then have "sizes (rf @ [(e, st)]) = sizes rf"
    by (simp add: sizes_def first_occ_snoc)
  with True show ?thesis
    by (simp add: size_groups_of_def setdefault_append_map members_snoc sizes_def)
next
  case False
  then have s: "sizes (rf @ [(e, st)]) = sizes rf @ [st_size st]"
    by (simp add: sizes_def first_occ_snoc)
  from False have "members (st_size st) rf = []"
    by (rule members_empty)
  with False s show ?thesis
    by (auto simp add: size_groups_of_def setdefault_append_map members_snoc sizes_def)
qed


lemma regular_files_append: "regular_files (xs @ ys) = regular_files xs @ regular_files ys"
  by (induction xs) (simp_all split: sum.split)

lemma is_file_error_append:
  "is_file_error (xs @ ys) =
     (case is_file_error xs of Some raised \<Rightarrow> Some raised | None \<Rightarrow> is_file_error ys)"
  by (induction xs) (simp_all split: sum.split)

lemma group_loop_append:
  "group_loop (xs @ ys) g =
     (case group_loop xs g of Inl raised \<Rightarrow> Inl raised | Inr g' \<Rightarrow> group_loop ys g')"
  by (induction xs arbitrary: g) (simp_all split: sum.split)

lemma group_loop_eq:
  "group_loop walk [] =
     (case is_file_error walk of
        Some raised \<Rightarrow> Inl raised
      | None \<Rightarrow> Inr (size_groups_of (regular_files walk)))"
proof (induction walk rule: rev_induct)
  case Nil
  show ?case by (simp add: size_groups_of_def sizes_def)
next
  case (snoc x xs)
  show ?case
  proof (cases "is_file_error xs")
    case (Some raised)
    with snoc show ?thesis
      by (simp add: group_loop_append is_file_error_append)
  next
    case None
    with snoc have xs: "group_loop xs [] = Inr (size_groups_of (regular_files xs))"
      by simp
    show ?thesis
    proof (cases "is_file x")
      case (Inl raised)
      with None xs show ?thesis
        by (simp add: group_loop_append is_file_error_append)
    next
      case (Inr regular_file)
      note f = this
      show ?thesis
      proof (cases regular_file)
        case False
        with f None xs show ?thesis
          by (simp add: group_loop_append is_file_error_append regular_files_append)
      next
        case True
        show ?thesis
        proof (cases "stat x")
          case (Inl err)
          with f True None xs show ?thesis
            by (simp add: group_loop_append is_file_error_append regular_files_append)
        next
          case (Inr st)
          with f True None xs show ?thesis
            by (simp add: group_loop_append is_file_error_append regular_files_append
                  size_groups_of_snoc)
        qed
      qed
    qed
  qed
qed

lemma mark_loop_eq:
  "mark_loop sz n fs results tot = (results @ map (dup_finding sz n) fs, tot + sz * length fs)"
  by (induction fs arbitrary: results tot) (simp_all add: dup_finding_def)

lemma check_loop_eq:
  "check_loop groups results tot =
     (results @ concat (map (\<lambda>(sz, fs). group_findings sz fs) groups),
      tot + sum_list (map (\<lambda>(sz, fs). sz * length (marked sz fs)) groups))"
proof (induction groups arbitrary: results tot)
  case Nil
  show ?case by simp
next
  case (Cons g groups)
  obtain sz fs where g: "g = (sz, fs)" by (cases g)
  show ?case
  proof (cases "1 < length fs \<and> 0 < sz")
    case True
    then have m: "marked sz fs = drop 1 fs"
      by (simp add: marked_def drop_Suc)
    from True show ?thesis
      by (simp add: g Cons.IH mark_loop_eq group_findings_def m)
  next
    case False
    then have m: "marked sz fs = []"
      by (auto simp add: marked_def)
    from False have "check_loop (g # groups) results tot = check_loop groups results tot"
      by (auto simp add: g)
    then show ?thesis
      by (simp add: g Cons.IH group_findings_def m)
  qed
qed

lemma scan_duplicates_eq:
  "scan_duplicates walk =
     (case is_file_error walk of
        Some raised \<Rightarrow> Inl raised
      | None \<Rightarrow>
          Inr (concat (map (\<lambda>sz. group_findings sz (members sz (regular_files walk)))
                         (sizes (regular_files walk))),
               sum_list (map (\<lambda>sz. sz * length (marked sz (members sz (regular_files walk))))
                           (sizes (regular_files walk)))))"
  by (simp add: scan_duplicates_def group_loop_eq check_loop_eq size_groups_of_def comp_def
        split: option.split)


lemma duplicate_reason_3: "duplicate_reason 3 = ''Potential duplicate (3 files with same size)''"
  by (simp add: duplicate_reason_def str_nat.simps [of 3] digit_def)

lemma duplicate_reason_Suc3:
  "duplicate_reason (Suc (Suc (Suc 0))) = ''Potential duplicate (3 files with same size)''"
  using duplicate_reason_3 by (simp add: numeral_3_eq_3)

lemma floor_rat_numeral_div:
  "\<lfloor>numeral a / numeral b :: rat\<rfloor> = numeral a div numeral b"
  using floor_divide_of_int_eq [of "numeral a" "numeral b", where ?'a = rat] by simp

lemma round_mb_small: "round_mb 5 = 0" "round_mb 0 = 0"
  by (simp_all add: round_mb_def py_round2_def round_half_even_def Let_def floor_rat_numeral_div)

lemma group_findings_unfold:
  "group_findings sz fs =
     (if 2 \<le> length fs \<and> 0 < sz
      then map (\<lambda>e. \<lparr>path = rel_path e, size_mb = round_mb sz,
                        reason = ''Potential duplicate ('' @ str_nat (length fs)
                                   @ '' files with same size)''\<rparr>) (tl fs)
      else [])"
  by (simp add: group_findings_def marked_def dup_finding_def duplicate_reason_def)

lemma scan_duplicates_three:
  assumes "is_file_error walk = None"
    and "regular_files walk = [(a, sa), (b, sb), (c, sc)]"
    and "st_size sa = sz" "st_size sb = sz" "st_size sc = sz" "0 < sz"
  shows "scan_duplicates walk =
     Inr ([\<lparr>path = rel_path b, size_mb = round_mb sz,
            reason = ''Potential duplicate (3 files with same size)''\<rparr>,
           \<lparr>path = rel_path c, size_mb = round_mb sz,
            reason = ''Potential duplicate (3 files with same size)''\<rparr>], 2 * sz)"
  using assms
  by (simp add: scan_duplicates_eq sizes_def members_def group_findings_def marked_def
        dup_finding_def duplicate_reason_Suc3)

lemma scan_duplicates_zero:
  assumes "is_file_error walk = None"
    and "\<forall>(e, st) \<in> set (regular_files walk). st_size st = 0"
  shows "scan_duplicates walk = Inr ([], 0)"
proof -
  have "\<forall>sz \<in> set (sizes (regular_files walk)). sz = 0"
    using assms(2) by (auto simp: sizes_def)
  then have "\<forall>sz \<in> set (sizes (regular_files walk)). marked sz (members sz (regular_files walk)) = []"
    by (auto simp add: marked_def)
  with assms(1) show ?thesis
    by (simp add: scan_duplicates_eq group_findings_def)
qed

text \<open>
  Claim C1. In duplicates mode the scan returns unless an \<^verbatim>\<open>is_file()\<close> call raises, and it
  groups the readable regular files by exact byte size; the Findings are, group by group
  in order of first occurrence, every member but the first of each group that has a
  non-zero size and at least two members, with reason
  \<open>Potential duplicate (K files with same size)\<close> where \<open>K\<close> counts all members of the
  group. Files of size zero yield nothing, however many there are, and exactly three files
  of one non-zero size yield exactly two Findings, each naming 3 files.
\<close>

theorem duplicates_spec:
  "scan_duplicates walk =
     (case is_file_error walk of
        Some raised \<Rightarrow> Inl raised
      | None \<Rightarrow>
          Inr (concat (map (\<lambda>sz. group_findings sz (members sz (regular_files walk)))
                         (sizes (regular_files walk))),
               sum_list (map (\<lambda>sz. sz * length (marked sz (members sz (regular_files walk))))
                           (sizes (regular_files walk)))))
   \<and> group_findings sz fs =
       (if 2 \<le> length fs \<and> 0 < sz
        then map (\<lambda>e. \<lparr>path = rel_path e, size_mb = round_mb sz,
                          reason = ''Potential duplicate ('' @ str_nat (length fs)
                                     @ '' files with same size)''\<rparr>) (tl fs)
        else [])
   \<and> (is_file_error walk0 = None \<and>
        (\<forall>(e, st) \<in> set (regular_files walk0). st_size st = 0) \<longrightarrow>
        scan_duplicates walk0 = Inr ([], 0))
   \<and> (is_file_error walk3 = None \<and>
        regular_files walk3 = [(a, sa), (b, sb), (c, sc)] \<and> 0 < n \<and>
        st_size sa = n \<and> st_size sb = n \<and> st_size sc = n \<longrightarrow>
        scan_duplicates walk3 =
          Inr ([\<lparr>path = rel_path b, size_mb = round_mb n,
                 reason = ''Potential duplicate (3 files with same size)''\<rparr>,
                \<lparr>path = rel_path c, size_mb = round_mb n,
                 reason = ''Potential duplicate (3 files with same size)''\<rparr>], 2 * n))"
  using scan_duplicates_eq [of walk] group_findings_unfold [of sz fs]
    scan_duplicates_zero [of walk0] scan_duplicates_three [of walk3 a sa b sb c sc n]
  by blast

theorem duplicates_spec_witness:
  "scan_duplicates [regular ''a.bin'' 5 0, regular ''b.bin'' 5 1, regular ''c.bin'' 5 2] =
     Inr ([\<lparr>path = ''b.bin'', size_mb = 0,
            reason = ''Potential duplicate (3 files with same size)''\<rparr>,
           \<lparr>path = ''c.bin'', size_mb = 0,
            reason = ''Potential duplicate (3 files with same size)''\<rparr>], 10)
   \<and> scan_duplicates [regular ''empty1'' 0 0, regular ''empty2'' 0 1] = Inr ([], 0)"
  using duplicates_spec [of "[]" 0 "[]"
      "[regular ''empty1'' 0 0, regular ''empty2'' 0 1]"
      "[regular ''a.bin'' 5 0, regular ''b.bin'' 5 1, regular ''c.bin'' 5 2]"
      "regular ''a.bin'' 5 0" "\<lparr>st_size = 5, st_mtime = 0\<rparr>"
      "regular ''b.bin'' 5 1" "\<lparr>st_size = 5, st_mtime = 1\<rparr>"
      "regular ''c.bin'' 5 2" "\<lparr>st_size = 5, st_mtime = 2\<rparr>" 5]
  by (simp add: regular_def round_mb_small)


section \<open>Stale files, rounding, inaccessible files, temporary files\<close>

lemma scan_temp_files_eq:
  "scan_temp_files walk =
     (case is_file_error walk of
        Some raised \<Rightarrow> Inl raised
      | None \<Rightarrow>
          Inr (map (mk_finding ''Temporary file'')
                 (filter (\<lambda>(e, st). is_temp e) (regular_files walk)),
               total_bytes (filter (\<lambda>(e, st). is_temp e) (regular_files walk))))"
  by (simp add: scan_temp_files_def scan_temp_loop_eq split: option.split)

lemma scan_old_files_eq:
  "scan_old_files clk walk days =
     (case is_file_error walk of
        Some raised \<Rightarrow> Inl raised
      | None \<Rightarrow>
          Inr (map (old_finding clk)
                 (enumerate 1 (filter (\<lambda>(e, st). st_mtime st < clk 0 - of_int (days * 86400))
                                 (regular_files walk))),
               total_bytes (filter (\<lambda>(e, st). st_mtime st < clk 0 - of_int (days * 86400))
                              (regular_files walk))))"
proof -
  have d: "days * 24 * 60 * 60 = days * 86400" by simp
  show ?thesis
    unfolding scan_old_files_def Let_def scan_old_loop_eq d
    by (simp split: option.split)
qed

lemma regular_simps [simp]:
  "is_file (regular nm sz mt) = Inr True"
  "stat (regular nm sz mt) = Inr \<lparr>st_size = sz, st_mtime = mt\<rparr>"
  "name (regular nm sz mt) = nm"
  "rel_path (regular nm sz mt) = nm"
  by (simp_all add: regular_def)

text \<open>
  Claim C5. In old_files mode the scan returns unless an \<^verbatim>\<open>is_file()\<close> call raises. The
  cutoff is the clock reading taken at the start of the scan minus \<open>days * 86400\<close> seconds,
  and \<^verbatim>\<open>use\<close> always passes \<open>days = 180\<close>. The Findings are, in walk order, those of the
  readable regular files whose modification time is strictly below the cutoff; the reason
  of each is \<open>Not modified in N days\<close> with \<open>N\<close> the truncation of (clock reading taken when
  the file is evaluated minus modification time) / 86400. A file modified 200 days before
  the scan starts qualifies, one modified 10 days before does not.
\<close>

theorem old_files_spec:
  "scan_old_files clk walk days =
     (case is_file_error walk of
        Some raised \<Rightarrow> Inl raised
      | None \<Rightarrow>
          Inr (map (old_finding clk)
                 (enumerate 1 (filter (\<lambda>(e, st). st_mtime st < clk 0 - of_int (days * 86400))
                                 (regular_files walk))),
               total_bytes (filter (\<lambda>(e, st). st_mtime st < clk 0 - of_int (days * 86400))
                              (regular_files walk))))
   \<and> old_finding clk (k, e, st) =
       \<lparr>path = rel_path e, size_mb = round_mb (st_size st),
        reason = ''Not modified in '' @ str_int (py_int ((clk k - st_mtime st) / 86400))
                   @ '' days''\<rparr>
   \<and> run_scan h sp m E (PStr ''old_files'') =
       Some (''old_files'', scan_old_files (clock h) (rglob h sp) 180)
   \<and> scan_old_files clk [regular nm sz (clk 0 - 200 * 86400)] 180 =
       Inr ([\<lparr>path = nm, size_mb = round_mb sz,
              reason = ''Not modified in ''
                         @ str_int (py_int ((clk 1 - (clk 0 - 200 * 86400)) / 86400))
                         @ '' days''\<rparr>], sz)
   \<and> scan_old_files clk [regular nm sz (clk 0 - 10 * 86400)] 180 = Inr ([], 0)"
proof -
  have a: "scan_old_files clk [regular nm sz (clk 0 - 200 * 86400)] 180 =
       Inr ([\<lparr>path = nm, size_mb = round_mb sz,
              reason = ''Not modified in ''
                         @ str_int (py_int ((clk 1 - (clk 0 - 200 * 86400)) / 86400))
                         @ '' days''\<rparr>], sz)"
    by (simp add: scan_old_files_eq old_finding_def regular_def)
  have b: "scan_old_files clk [regular nm sz (clk 0 - 10 * 86400)] 180 = Inr ([], 0)"
    by (simp add: scan_old_files_eq)
  have c: "run_scan h sp m E (PStr ''old_files'') =
       Some (''old_files'', scan_old_files (clock h) (rglob h sp) 180)"
    by (simp add: run_scan_def)
  have f: "old_finding clk (k, e, st) =
       \<lparr>path = rel_path e, size_mb = round_mb (st_size st),
        reason = ''Not modified in '' @ str_int (py_int ((clk k - st_mtime st) / 86400))
                   @ '' days''\<rparr>"
    by (simp add: old_finding_def)
  from scan_old_files_eq [of clk walk days] f c a b show ?thesis
    by (intro conjI)
qed

theorem old_files_spec_witness:
  "scan_old_files (\<lambda>k. 1700000000 + of_nat k)
     [regular ''old.doc'' 1048576 (1700000000 - 200 * 86400),
      regular ''new.doc'' 1048576 (1700000000 - 10 * 86400)] 180 =
   Inr ([\<lparr>path = ''old.doc'', size_mb = 1, reason = ''Not modified in 200 days''\<rparr>], 1048576)"
proof -
  have s: "str_nat 200 = ''200''"
    by (simp add: str_nat.simps [of 200] str_nat.simps [of 20] str_nat.simps [of 2] digit_def)
  have r: "round_mb 1048576 = 1"
    by (simp add: round_mb_def py_round2_def round_half_even_def Let_def)
  have p: "py_int (17280001 / 86400) = 200"
    by (simp add: py_int_def floor_rat_numeral_div)
  show ?thesis
    using old_files_spec [of "\<lambda>k. 1700000000 + of_nat k"
      "[regular ''old.doc'' 1048576 (1700000000 - 200 * 86400),
        regular ''new.doc'' 1048576 (1700000000 - 10 * 86400)]" 180]
    by (simp add: old_finding_def str_int_def s r p)
qed


lemma mk_finding_sound:
  "f \<in> set (map (mk_finding why) (filter P rf)) \<Longrightarrow>
   \<exists>(e, st) \<in> set rf.
     path f = rel_path e \<and> size_mb f = py_round2 (of_nat (st_size st) / (1024 * 1024))"
  by (fastforce simp add: mk_finding_def round_mb_def)

lemma old_finding_sound:
  "f \<in> set (map (old_finding clk) (enumerate n (filter P rf))) \<Longrightarrow>
   \<exists>(e, st) \<in> set rf.
     path f = rel_path e \<and> size_mb f = py_round2 (of_nat (st_size st) / (1024 * 1024))"
proof -
  assume "f \<in> set (map (old_finding clk) (enumerate n (filter P rf)))"
  then obtain k e st where m: "(k, e, st) \<in> set (enumerate n (filter P rf))"
    and f: "f = old_finding clk (k, e, st)"
    by auto
  have "set (filter P rf) = snd ` set (enumerate n (filter P rf))"
    by (simp flip: set_map)
  with m have "(e, st) \<in> set (filter P rf)"
    by force
  then have "(e, st) \<in> set rf"
    by simp
  with f show ?thesis
    by (fastforce simp add: old_finding_def round_mb_def)
qed

lemma marked_subset: "e \<in> set (marked sz fs) \<Longrightarrow> e \<in> set fs"
  by (cases fs) (auto simp add: marked_def split: if_splits)

lemma group_findings_sound:
  "f \<in> set (group_findings sz (members sz rf)) \<Longrightarrow>
   \<exists>(e, st) \<in> set rf.
     path f = rel_path e \<and> size_mb f = py_round2 (of_nat (st_size st) / (1024 * 1024))"
proof -
  assume "f \<in> set (group_findings sz (members sz rf))"
  then obtain e where e: "e \<in> set (marked sz (members sz rf))"
    and f: "f = dup_finding sz (length (members sz rf)) e"
    by (auto simp add: group_findings_def)
  from e have "e \<in> set (members sz rf)"
    by (rule marked_subset)
  then obtain st where "(e, st) \<in> set rf" "st_size st = sz"
    by (auto simp add: members_def)
  with f show ?thesis
    by (fastforce simp add: dup_finding_def round_mb_def)
qed

lemma scan_returns:
  "scan_large_files walk m E = Inr (rs, t) \<Longrightarrow>
     rs = sort_reverse size_mb
            (map (mk_finding ''Large file'') (filter (large_ok m E) (regular_files walk)))
     \<and> t = total_bytes (filter (large_ok m E) (regular_files walk))"
  "scan_temp_files walk = Inr (rs, t) \<Longrightarrow>
     rs = map (mk_finding ''Temporary file'')
            (filter (\<lambda>(e, st). is_temp e) (regular_files walk))
     \<and> t = total_bytes (filter (\<lambda>(e, st). is_temp e) (regular_files walk))"
  "scan_old_files clk walk days = Inr (rs, t) \<Longrightarrow>
     rs = map (old_finding clk)
            (enumerate 1 (filter (\<lambda>(e, st). st_mtime st < clk 0 - of_int (days * 86400))
                            (regular_files walk)))
     \<and> t = total_bytes (filter (\<lambda>(e, st). st_mtime st < clk 0 - of_int (days * 86400))
                         (regular_files walk))"
  "scan_duplicates walk = Inr (rs, t) \<Longrightarrow>
     rs = concat (map (\<lambda>sz. group_findings sz (members sz (regular_files walk)))
                    (sizes (regular_files walk)))
     \<and> t = sum_list (map (\<lambda>sz. sz * length (marked sz (members sz (regular_files walk))))
                      (sizes (regular_files walk)))"
  by (simp_all add: scan_large_files_eq scan_temp_files_eq scan_old_files_eq scan_duplicates_eq
        split: option.splits)

lemma scan_returns_iff:
  "(\<exists>r. scan_large_files walk m E = Inr r) \<longleftrightarrow> is_file_error walk = None"
  "(\<exists>r. scan_temp_files walk = Inr r) \<longleftrightarrow> is_file_error walk = None"
  "(\<exists>r. scan_old_files clk walk days = Inr r) \<longleftrightarrow> is_file_error walk = None"
  "(\<exists>r. scan_duplicates walk = Inr r) \<longleftrightarrow> is_file_error walk = None"
  by (simp_all add: scan_large_files_eq scan_temp_files_eq scan_old_files_eq scan_duplicates_eq
        split: option.splits)

text \<open>
  Claim C8. Every Finding that any of the four classifiers returns belongs to a readable
  regular file of the walk, and its \<open>size_mb\<close> is \<^verbatim>\<open>round(raw_bytes / (1024 * 1024), 2)\<close> for
  the raw byte size of that file.
\<close>

theorem size_mb_rounding:
  "(scan_large_files walk m E = Inr (large, t1) \<longrightarrow>
    (\<forall>f \<in> set large.
      \<exists>(e, st) \<in> set (regular_files walk).
        path f = rel_path e \<and> size_mb f = py_round2 (of_nat (st_size st) / (1024 * 1024))))
   \<and> (scan_temp_files walk = Inr (temp, t2) \<longrightarrow>
    (\<forall>f \<in> set temp.
      \<exists>(e, st) \<in> set (regular_files walk).
        path f = rel_path e \<and> size_mb f = py_round2 (of_nat (st_size st) / (1024 * 1024))))
   \<and> (scan_old_files clk walk days = Inr (old, t3) \<longrightarrow>
    (\<forall>f \<in> set old.
      \<exists>(e, st) \<in> set (regular_files walk).
        path f = rel_path e \<and> size_mb f = py_round2 (of_nat (st_size st) / (1024 * 1024))))
   \<and> (scan_duplicates walk = Inr (dups, t4) \<longrightarrow>
    (\<forall>f \<in> set dups.
      \<exists>(e, st) \<in> set (regular_files walk).
        path f = rel_path e \<and> size_mb f = py_round2 (of_nat (st_size st) / (1024 * 1024))))"
proof (intro conjI impI ballI)
  fix f assume "scan_large_files walk m E = Inr (large, t1)" and "f \<in> set large"
  then have "f \<in> set (map (mk_finding ''Large file'') (filter (large_ok m E) (regular_files walk)))"
    using scan_returns(1) [of walk m E large t1] by simp
  then show "\<exists>(e, st) \<in> set (regular_files walk).
        path f = rel_path e \<and> size_mb f = py_round2 (of_nat (st_size st) / (1024 * 1024))"
    by (rule mk_finding_sound)
next
  fix f assume "scan_temp_files walk = Inr (temp, t2)" and "f \<in> set temp"
  then have "f \<in> set (map (mk_finding ''Temporary file'')
                        (filter (\<lambda>(e, st). is_temp e) (regular_files walk)))"
    using scan_returns(2) [of walk temp t2] by simp
  then show "\<exists>(e, st) \<in> set (regular_files walk).
        path f = rel_path e \<and> size_mb f = py_round2 (of_nat (st_size st) / (1024 * 1024))"
    by (rule mk_finding_sound)
next
  fix f assume "scan_old_files clk walk days = Inr (old, t3)" and "f \<in> set old"
  then have "f \<in> set (map (old_finding clk)
        (enumerate 1 (filter (\<lambda>(e, st). st_mtime st < clk 0 - of_int (days * 86400))
                        (regular_files walk))))"
    using scan_returns(3) [of clk walk days old t3] by simp
  then show "\<exists>(e, st) \<in> set (regular_files walk).
        path f = rel_path e \<and> size_mb f = py_round2 (of_nat (st_size st) / (1024 * 1024))"
    by (rule old_finding_sound)
next
  fix f assume "scan_duplicates walk = Inr (dups, t4)" and "f \<in> set dups"
  then obtain sz where "f \<in> set (group_findings sz (members sz (regular_files walk)))"
    using scan_returns(4) [of walk dups t4] by auto
  then show "\<exists>(e, st) \<in> set (regular_files walk).
        path f = rel_path e \<and> size_mb f = py_round2 (of_nat (st_size st) / (1024 * 1024))"
    by (rule group_findings_sound)
qed


lemma round_mb_eighth: "py_round2 (1 / 8) = 3 / 25"
  by (simp add: py_round2_def round_half_even_def Let_def floor_rat_numeral_div)

lemma is_temp_examples:
  "is_temp (regular ''a.tmp'' sz mt)" "is_temp (regular ''b.tmp'' sz mt)"
  by (simp_all add: is_temp_def regular_def temp_extensions_def suffix_def lower_def
        lower_char_def Let_def)

lemma str_nat_examples:
  "str_nat 2 = ''2''" "str_nat (Suc (Suc 0)) = ''2''" "str_nat 19675 = ''19675''"
  by (simp_all add: str_nat.simps [of "Suc (Suc 0)"] add: str_nat.simps [of 2] str_nat.simps [of 19675] str_nat.simps [of 1967]
        str_nat.simps [of 196] str_nat.simps [of 19] str_nat.simps [of "Suc 0"] digit_def)

theorem size_mb_rounding_witness:
  "scan_large_files [regular ''a.tmp'' 131072 0, regular ''b.tmp'' 131072 0] (Finite 0) [] =
     Inr ([\<lparr>path = ''a.tmp'', size_mb = 3 / 25, reason = ''Large file''\<rparr>,
           \<lparr>path = ''b.tmp'', size_mb = 3 / 25, reason = ''Large file''\<rparr>], 262144)
   \<and> scan_temp_files [regular ''a.tmp'' 131072 0, regular ''b.tmp'' 131072 0] =
     Inr ([\<lparr>path = ''a.tmp'', size_mb = 3 / 25, reason = ''Temporary file''\<rparr>,
           \<lparr>path = ''b.tmp'', size_mb = 3 / 25, reason = ''Temporary file''\<rparr>], 262144)
   \<and> scan_old_files (\<lambda>k. 1700000000)
       [regular ''a.tmp'' 131072 0, regular ''b.tmp'' 131072 0] 180 =
     Inr ([\<lparr>path = ''a.tmp'', size_mb = 3 / 25, reason = ''Not modified in 19675 days''\<rparr>,
           \<lparr>path = ''b.tmp'', size_mb = 3 / 25, reason = ''Not modified in 19675 days''\<rparr>],
          262144)
   \<and> scan_duplicates [regular ''a.tmp'' 131072 0, regular ''b.tmp'' 131072 0] =
     Inr ([\<lparr>path = ''b.tmp'', size_mb = 3 / 25,
            reason = ''Potential duplicate (2 files with same size)''\<rparr>], 131072)
   \<and> py_round2 (of_nat 131072 / (1024 * 1024)) = 3 / 25"
proof -
  let ?w = "[regular ''a.tmp'' 131072 0, regular ''b.tmp'' 131072 0]"
  have rm: "round_mb 131072 = 3 / 25"
    by (simp add: round_mb_def round_mb_eighth)
  have p: "py_int (531250 / 27) = 19675"
    by (simp add: py_int_def floor_rat_numeral_div)
  have n1: "scan_large_files ?w (Finite 0) [] =
     Inr ([\<lparr>path = ''a.tmp'', size_mb = 3 / 25, reason = ''Large file''\<rparr>,
           \<lparr>path = ''b.tmp'', size_mb = 3 / 25, reason = ''Large file''\<rparr>], 262144)"
    by (simp add: scan_large_files_eq large_ok_def mk_finding_def rm sort_reverse_def)
  have n2: "scan_temp_files ?w =
     Inr ([\<lparr>path = ''a.tmp'', size_mb = 3 / 25, reason = ''Temporary file''\<rparr>,
           \<lparr>path = ''b.tmp'', size_mb = 3 / 25, reason = ''Temporary file''\<rparr>], 262144)"
    by (simp add: scan_temp_files_eq is_temp_examples mk_finding_def rm)
  have n3: "scan_old_files (\<lambda>k. 1700000000) ?w 180 =
     Inr ([\<lparr>path = ''a.tmp'', size_mb = 3 / 25, reason = ''Not modified in 19675 days''\<rparr>,
           \<lparr>path = ''b.tmp'', size_mb = 3 / 25, reason = ''Not modified in 19675 days''\<rparr>],
          262144)"
    by (simp add: scan_old_files_eq old_finding_def rm p str_int_def str_nat_examples)
  have n4: "scan_duplicates ?w =
     Inr ([\<lparr>path = ''b.tmp'', size_mb = 3 / 25,
            reason = ''Potential duplicate (2 files with same size)''\<rparr>], 131072)"
    by (simp add: scan_duplicates_eq sizes_def members_def group_findings_def marked_def
          dup_finding_def duplicate_reason_def rm str_nat_examples)
  from size_mb_rounding [where walk = ?w and m = "Finite 0" and E = "[]"
      and clk = "\<lambda>k. 1700000000" and days = 180
      and large = "[\<lparr>path = ''a.tmp'', size_mb = 3 / 25, reason = ''Large file''\<rparr>,
                    \<lparr>path = ''b.tmp'', size_mb = 3 / 25, reason = ''Large file''\<rparr>]"
      and ?t1.0 = 262144
      and temp = "[\<lparr>path = ''a.tmp'', size_mb = 3 / 25, reason = ''Temporary file''\<rparr>,
                   \<lparr>path = ''b.tmp'', size_mb = 3 / 25, reason = ''Temporary file''\<rparr>]"
      and ?t2.0 = 262144
      and old = "[\<lparr>path = ''a.tmp'', size_mb = 3 / 25,
                    reason = ''Not modified in 19675 days''\<rparr>,
                  \<lparr>path = ''b.tmp'', size_mb = 3 / 25,
                    reason = ''Not modified in 19675 days''\<rparr>]"
      and ?t3.0 = 262144
      and dups = "[\<lparr>path = ''b.tmp'', size_mb = 3 / 25,
                     reason = ''Potential duplicate (2 files with same size)''\<rparr>]"
      and ?t4.0 = 131072] n1 n2 n3 n4
  have "py_round2 (of_nat 131072 / (1024 * 1024)) = 3 / 25"
    by auto
  with n1 n2 n3 n4 show ?thesis
    by (intro conjI)
qed

lemma regular_files_skip:
  "regular_files (xs @ e\<lparr>stat := Inl err\<rparr> # ys) = regular_files (xs @ ys)"
  by (simp add: regular_files_append)

text \<open>
  What the \<^verbatim>\<open>except (PermissionError, OSError): continue\<close> of the four loops achieves: an
  entry whose \<^verbatim>\<open>stat()\<close> raises inside the \<^verbatim>\<open>try\<close> is skipped. Every scan does on the walk what
  it does on the walk without that entry, provided \<^verbatim>\<open>is_file()\<close> answered for it.
\<close>

lemma stat_failure_skipped:
  assumes "is_file e = Inr b"
  shows "scan_large_files (xs @ e\<lparr>stat := Inl err\<rparr> # ys) m E = scan_large_files (xs @ ys) m E"
    and "scan_temp_files (xs @ e\<lparr>stat := Inl err\<rparr> # ys) = scan_temp_files (xs @ ys)"
    and "scan_old_files clk (xs @ e\<lparr>stat := Inl err\<rparr> # ys) days = scan_old_files clk (xs @ ys) days"
    and "scan_duplicates (xs @ e\<lparr>stat := Inl err\<rparr> # ys) = scan_duplicates (xs @ ys)"
proof -
  from assms have "is_file_error (xs @ e\<lparr>stat := Inl err\<rparr> # ys) = is_file_error (xs @ ys)"
    by (simp add: is_file_error_append split: option.split)
  then show "scan_large_files (xs @ e\<lparr>stat := Inl err\<rparr> # ys) m E = scan_large_files (xs @ ys) m E"
    and "scan_temp_files (xs @ e\<lparr>stat := Inl err\<rparr> # ys) = scan_temp_files (xs @ ys)"
    and "scan_old_files clk (xs @ e\<lparr>stat := Inl err\<rparr> # ys) days = scan_old_files clk (xs @ ys) days"
    and "scan_duplicates (xs @ e\<lparr>stat := Inl err\<rparr> # ys) = scan_duplicates (xs @ ys)"
    by (simp_all only: scan_large_files_eq scan_temp_files_eq scan_old_files_eq
          scan_duplicates_eq regular_files_skip)
qed

text \<open>
  What it does not achieve: \<^verbatim>\<open>is_file()\<close> is called before the \<^verbatim>\<open>try\<close>, so the first entry for
  which it raises ends every scan with that error.
\<close>

lemma is_file_failure_aborts:
  assumes "is_file_error xs = None" and "is_file e = Inl err"
  shows "scan_large_files (xs @ e # ys) m E = Inl err"
    and "scan_temp_files (xs @ e # ys) = Inl err"
    and "scan_old_files clk (xs @ e # ys) days = Inl err"
    and "scan_duplicates (xs @ e # ys) = Inl err"
  using assms
  by (simp_all add: scan_large_files_eq scan_temp_files_eq scan_old_files_eq
        scan_duplicates_eq is_file_error_append)

lemma use_path_scan_type:
  "use h [] [(''path'', p), (''scan_type'', st)] =
     Return (use_body h p (Finite 10) (PStr []) st)"
  by (simp add: use_def parse_input_def from_dict_def py_get_def)

lemma resolve_demo: "resolve_scan_path (demo_host walk) (PStr ''/data'') = Inr ''/data''"
  by (simp add: resolve_scan_path_def demo_host_def strip_def strip_chars_def lower_def
        lower_char_def isspace_def squote_def dquote_def Let_def)

lemma use_body_demo:
  "use_body (demo_host walk) (PStr ''/data'') m (PStr []) stype =
     (case run_scan (demo_host walk) ''/data'' m [] stype of
        None \<Rightarrow> ErrorResponse (UnknownScanType stype)
      | Some (st, Inl raised) \<Rightarrow> ErrorResponse (ScanFailed (OSErr raised))
      | Some (st, Inr (results, total_size)) \<Rightarrow>
          ReportResponse (make_report st ''/data'' results total_size))"
proof -
  have e: "ext_list_of (PStr []) = Inr []"
    by (simp add: ext_list_of_def)
  have d: "exists (demo_host walk) ''/data''" "is_dir (demo_host walk) ''/data''"
    by (simp_all add: demo_host_def)
  show ?thesis
    by (simp add: use_body_def resolve_demo d e Let_def)
qed

lemma rglob_demo: "rglob (demo_host walk) ''/data'' = walk"
  by (simp add: demo_host_def)

lemma round_mb_one: "round_mb 1048576 = 1"
  by (simp add: round_mb_def py_round2_def round_half_even_def Let_def)

text \<open>
  Claim C9 says that a file whose metadata cannot be read for a permission or I/O error is
  skipped silently and never aborts the scan. The loops do catch \<^verbatim>\<open>PermissionError\<close> and
  \<^verbatim>\<open>OSError\<close> and continue, but only around \<^verbatim>\<open>stat()\<close>: the call \<^verbatim>\<open>file_path.is_file()\<close> that
  reads the metadata first stands outside the \<^verbatim>\<open>try\<close> in all four of them. For the file
  \<open>locked/x.tmp\<close> in a directory that may be listed but not searched, \<^verbatim>\<open>is_file()\<close> raises
  \<^verbatim>\<open>PermissionError\<close>: each of the four scans ends with that error, and \<^verbatim>\<open>use\<close> returns the
  \<open>Scan failed\<close> error instead of the report on \<open>a.tmp\<close> that it returns without that file.
\<close>

theorem inaccessible_file_aborts_scan:
  "scan_large_files
     [regular ''a.tmp'' 1048576 0,
      \<lparr>rel_path = ''locked'', name = ''locked'', is_file = Inr False,
       stat = Inr \<lparr>st_size = 4096, st_mtime = 0\<rparr>\<rparr>,
      inaccessible ''locked/x.tmp'' ''x.tmp''] (Finite 0) [] = Inl PermissionError
   \<and> scan_temp_files
     [regular ''a.tmp'' 1048576 0,
      \<lparr>rel_path = ''locked'', name = ''locked'', is_file = Inr False,
       stat = Inr \<lparr>st_size = 4096, st_mtime = 0\<rparr>\<rparr>,
      inaccessible ''locked/x.tmp'' ''x.tmp''] = Inl PermissionError
   \<and> scan_old_files (\<lambda>k. 1700000000 + of_nat k)
     [regular ''a.tmp'' 1048576 0,
      \<lparr>rel_path = ''locked'', name = ''locked'', is_file = Inr False,
       stat = Inr \<lparr>st_size = 4096, st_mtime = 0\<rparr>\<rparr>,
      inaccessible ''locked/x.tmp'' ''x.tmp''] 180 = Inl PermissionError
   \<and> scan_duplicates
     [regular ''a.tmp'' 1048576 0,
      \<lparr>rel_path = ''locked'', name = ''locked'', is_file = Inr False,
       stat = Inr \<lparr>st_size = 4096, st_mtime = 0\<rparr>\<rparr>,
      inaccessible ''locked/x.tmp'' ''x.tmp''] = Inl PermissionError
   \<and> use (demo_host
       [regular ''a.tmp'' 1048576 0,
        \<lparr>rel_path = ''locked'', name = ''locked'', is_file = Inr False,
         stat = Inr \<lparr>st_size = 4096, st_mtime = 0\<rparr>\<rparr>,
        inaccessible ''locked/x.tmp'' ''x.tmp''])
       [] [(''path'', PStr ''/data''), (''scan_type'', PStr ''temp_files'')] =
     Return (ErrorResponse (ScanFailed (OSErr PermissionError)))
   \<and> use (demo_host
       [regular ''a.tmp'' 1048576 0,
        \<lparr>rel_path = ''locked'', name = ''locked'', is_file = Inr False,
         stat = Inr \<lparr>st_size = 4096, st_mtime = 0\<rparr>\<rparr>])
       [] [(''path'', PStr ''/data''), (''scan_type'', PStr ''temp_files'')] =
     Return (ReportResponse
       \<lparr>scan_type = ''temp_files'', scan_path = ''/data'', files_found = 1, total_size_mb = 1,
        files = [\<lparr>path = ''a.tmp'', size_mb = 1, reason = ''Temporary file''\<rparr>],
        note_text = ''All files shown''\<rparr>)"
proof -
  let ?d = "\<lparr>rel_path = ''locked'', name = ''locked'', is_file = Inr False,
       stat = Inr \<lparr>st_size = 4096, st_mtime = 0\<rparr>\<rparr>"
  let ?w = "[regular ''a.tmp'' 1048576 0, ?d, inaccessible ''locked/x.tmp'' ''x.tmp'']"
  have e: "is_file_error ?w = Some PermissionError"
    by (simp add: inaccessible_def)
  have n: "is_file_error [regular ''a.tmp'' 1048576 0, ?d] = None"
    by simp
  have l: "scan_large_files ?w (Finite 0) [] = Inl PermissionError"
    unfolding scan_large_files_eq e by simp
  have t: "scan_temp_files ?w = Inl PermissionError"
    unfolding scan_temp_files_eq e by simp
  have o: "scan_old_files (\<lambda>k. 1700000000 + of_nat k) ?w 180 = Inl PermissionError"
    unfolding scan_old_files_eq e by simp
  have d: "scan_duplicates ?w = Inl PermissionError"
    unfolding scan_duplicates_eq e by simp
  have u: "use (demo_host ?w) [] [(''path'', PStr ''/data''), (''scan_type'', PStr ''temp_files'')] =
     Return (ErrorResponse (ScanFailed (OSErr PermissionError)))"
    by (simp add: use_path_scan_type use_body_demo run_scan_def rglob_demo t)
  have t': "scan_temp_files [regular ''a.tmp'' 1048576 0, ?d] =
      Inr ([\<lparr>path = ''a.tmp'', size_mb = 1, reason = ''Temporary file''\<rparr>], 1048576)"
    unfolding scan_temp_files_eq n
    by (simp add: is_temp_examples mk_finding_def round_mb_one)
  have u': "use (demo_host [regular ''a.tmp'' 1048576 0, ?d]) []
       [(''path'', PStr ''/data''), (''scan_type'', PStr ''temp_files'')] =
     Return (ReportResponse
       \<lparr>scan_type = ''temp_files'', scan_path = ''/data'', files_found = 1, total_size_mb = 1,
        files = [\<lparr>path = ''a.tmp'', size_mb = 1, reason = ''Temporary file''\<rparr>],
        note_text = ''All files shown''\<rparr>)"
    by (simp add: use_path_scan_type use_body_demo run_scan_def rglob_demo t' make_report_def
          round_mb_one)
  from l t o d u u' show ?thesis
    by (intro conjI)
qed

lemma suffix_not_tilde: "suffix nm \<noteq> ''~''"
proof
  assume a: "suffix nm = ''~''"
  then have i: "0 < rfind nm CHR ''.''" "drop (nat (rfind nm CHR ''.'')) nm = ''~''"
    by (auto simp add: suffix_def Let_def split: if_splits)
  have "0 \<le> rfind xs c \<Longrightarrow> xs ! nat (rfind xs c) = c" for xs c
    by (induction xs) (auto simp add: Let_def nat_add_distrib split: if_splits)
  with i(1) have "nm ! nat (rfind nm CHR ''.'') = CHR ''.''"
    by simp
  moreover from i(2) have "nm ! nat (rfind nm CHR ''.'') = CHR ''~''"
    by (metis Cons_nth_drop_Suc drop_all list.inject list.simps(3) not_le)
  ultimately show False by simp
qed

text \<open>
  Claim C4 says that in temp_files mode a file name ending in a bare \<open>~\<close> is flagged. The
  list \<^verbatim>\<open>temp_extensions\<close> holds \<open>'~'\<close>, but it is compared with \<^verbatim>\<open>file_path.suffix\<close>, which is
  empty or starts with a dot and is never \<open>'~'\<close> (lemma \<open>suffix_not_tilde\<close>). So the editor
  backups \<open>notes.txt~\<close> and \<open>draft~\<close> yield no Finding.
\<close>

theorem trailing_tilde_not_flagged:
  "scan_temp_files [regular ''notes.txt~'' 2048 0] = Inr ([], 0)
   \<and> scan_temp_files [regular ''draft~'' 2048 0] = Inr ([], 0)"
  by (simp add: scan_temp_files_def regular_def is_temp_def temp_extensions_def
        temp_patterns_def suffix_def lower_def lower_char_def Let_def)


section \<open>Extension normalization\<close>

lemma normalize_loop_eq:
  "normalize_loop ts acc =
     acc @ map add_dot (filter (\<lambda>t. t \<noteq> []) (map (\<lambda>t. lower (strip t)) ts))"
  by (induction ts arbitrary: acc) (simp_all add: Let_def add_dot_def)

lemma normalize_extensions_eq: "normalize_extensions s = normalized s"
  by (simp add: normalize_extensions_def normalized_def normalize_loop_eq strip_def lower_def)

lemma lower_eq_Nil [simp]: "lower s = [] \<longleftrightarrow> s = []"
  by (simp add: lower_def)

lemma normalized_empty_iff:
  "normalized s = [] \<longleftrightarrow> (\<forall>t \<in> set (split_on CHR '','' s). strip t = [])"
  by (auto simp add: normalized_def filter_empty_conv)

lemma ext_list_of_PStr: "ext_list_of (PStr s) = Inr (normalize_extensions s)"
  by (simp add: ext_list_of_def normalize_extensions_def)

text \<open>
  Claim C7, amended. The extensions string is normalized by splitting at commas, trimming
  and lower-casing each token, dropping the empty tokens and prefixing a dot where it is
  missing. An empty result means no extension restriction: every file passes the
  extension filter. A supplied string without any valid entry normalizes to the same empty
  list and is treated exactly like an absent restriction.
\<close>

theorem extension_normalization:
  "normalize_extensions s =
     map add_dot (filter (\<lambda>t. t \<noteq> []) (map (\<lambda>t. lower (strip t)) (split_on CHR '','' s)))
   \<and> add_dot t = (if startswith t ''.'' then t else ''.'' @ t)
   \<and> ext_list_of (PStr s) = Inr (normalize_extensions s)
   \<and> large_ok m [] (e, st) = int_ge_float (st_size st) (fmul (fmul m 1024) 1024)
   \<and> ((\<forall>t \<in> set (split_on CHR '','' s). strip t = []) \<longrightarrow>
        normalize_extensions s = [] \<and>
        use_body h p m (PStr s) stype = use_body h p m (PStr []) stype)"
proof -
  have a: "normalize_extensions s =
     map add_dot (filter (\<lambda>t. t \<noteq> []) (map (\<lambda>t. lower (strip t)) (split_on CHR '','' s)))"
    by (simp add: normalize_extensions_eq normalized_def)
  have b: "large_ok m [] (e, st) = int_ge_float (st_size st) (fmul (fmul m 1024) 1024)"
    by (simp add: large_ok_def)
  have c: "use_body h p m (PStr s) stype = use_body h p m (PStr []) stype"
    if "\<forall>t \<in> set (split_on CHR '','' s). strip t = []"
  proof -
    from that have "normalize_extensions s = []"
      by (simp add: normalize_extensions_eq normalized_empty_iff)
    then have eq: "ext_list_of (PStr s) = ext_list_of (PStr [])"
      by (simp add: ext_list_of_PStr) (simp add: normalize_extensions_def)
    show ?thesis
      unfolding use_body_def eq ..
  qed
  have d: "normalize_extensions s = []"
    if "\<forall>t \<in> set (split_on CHR '','' s). strip t = []"
    using that by (simp add: normalize_extensions_eq normalized_empty_iff)
  from a b c d show ?thesis
    by (simp add: add_dot_def ext_list_of_PStr)
qed

lemma strip_examples: "strip '' '' = []" "strip [] = []"
  by (simp_all add: strip_def isspace_def)

theorem extension_normalization_witness:
  "split_on CHR '','' '' , '' = ['' '', '' ''] \<and> strip '' '' = []
   \<and> normalize_extensions '' , '' = []
   \<and> use_body (demo_host [regular ''a.zip'' 62914560 0]) (PStr ''/data'') (Finite 10)
        (PStr '' , '') (PStr ''large_files'') =
      use_body (demo_host [regular ''a.zip'' 62914560 0]) (PStr ''/data'') (Finite 10)
        (PStr []) (PStr ''large_files'')"
  using extension_normalization [where s = "'' , ''"
      and h = "demo_host [regular ''a.zip'' 62914560 0]" and p = "PStr ''/data''"
      and m = "Finite 10" and stype = "PStr ''large_files''"]
  by (simp add: strip_examples)

text \<open>
  Claim C7 as stated has the match-all outcome distinguishable from a supplied list with
  zero valid entries. It is not: the string \<open>" , "\<close> and the empty string give the same
  extension list and the same result of \<^verbatim>\<open>use\<close>.
\<close>

theorem zero_valid_entries_not_distinguished:
  "ext_list_of (PStr '' , '') = ext_list_of (PStr [])
   \<and> use (demo_host [regular ''a.zip'' 62914560 0]) []
        [(''path'', PStr ''/data''), (''extensions'', PStr '' , '')] =
      use (demo_host [regular ''a.zip'' 62914560 0]) []
        [(''path'', PStr ''/data''), (''extensions'', PStr [])]"
proof -
  have n: "normalize_extensions '' , '' = []"
    by (simp add: normalize_extensions_def strip_examples Let_def)
  have n0: "normalize_extensions [] = []"
    by (simp add: normalize_extensions_def)
  have e: "ext_list_of (PStr '' , '') = ext_list_of (PStr [])"
    by (simp add: ext_list_of_PStr n n0)
  have u: "use h [] [(''path'', PStr ''/data''), (''extensions'', x)] =
      Return (use_body h (PStr ''/data'') (Finite 10) x (PStr ''large_files''))" for h x
    by (simp add: use_def parse_input_def from_dict_def py_get_def)
  have "use_body h p m (PStr '' , '') t = use_body h p m (PStr []) t" for h p m t
    unfolding use_body_def e ..
  with e u show ?thesis
    by simp
qed


section \<open>The report\<close>




























section \<open>Old files and the other parameters; malformed parameters\<close>








text \<open>
  Claim C6 says that \<^verbatim>\<open>use\<close> never raises. The conversions
  \<^verbatim>\<open>float(parsed.get('min_size_mb', 10.0))\<close> and \<^verbatim>\<open>float(kwargs.get('min_size_mb', 10.0))\<close> stand
  before the \<^verbatim>\<open>try\<close> block whose handler turns every exception into a \<open>Scan failed\<close> error
  value. A \<open>min_size_mb\<close> that \<^verbatim>\<open>float\<close> rejects therefore leaves \<^verbatim>\<open>use\<close> as an exception:
  \<^verbatim>\<open>ValueError\<close> for the string \<open>50MB\<close>, \<^verbatim>\<open>TypeError\<close> for \<^verbatim>\<open>None\<close>.
\<close>

theorem malformed_min_size_raises:
  "use (demo_host []) [] [(''path'', PStr ''/data''), (''min_size_mb'', PStr ''50MB'')] =
     Raise ValueError
   \<and> use (demo_host []) [] [(''path'', PStr ''/data''), (''min_size_mb'', PNone)] =
     Raise TypeError"
proof -
  have "float_of_str ''50MB'' = None"
    by (simp add: float_of_str_def strip_def isspace_def is_digit_def split_sign_def lower_def
          lower_char_def parse_decimal_def parse_exponent_def Let_def)
  then show ?thesis
    by (simp add: use_def parse_input_def from_dict_def py_get_def)
qed

end
